theory Spec2Isabelle
  imports Main
begin

section \<open>Errors and results\<close>

text \<open>
  The exceptions the modelled code can raise. \<open>NoResultFound\<close> and
  \<open>MultipleResultsFound\<close> are raised by SQLAlchemy's \<open>scalar_one\<close>,
  \<open>AttributeError\<close> by an attribute read on \<open>None\<close>, \<open>HtmlParsingError\<close>
  and \<open>HttpError\<close> by the scrape and parse collaborators.
\<close>

datatype error =
    NoResultFound
  | MultipleResultsFound
  | HtmlParsingError
  | HttpError
  | NotImplementedError
  | RuntimeError
  | AttributeError

definition bind_err :: "error + 'a \<Rightarrow> ('a \<Rightarrow> error + 'b) \<Rightarrow> error + 'b" where
  "bind_err r f = (case r of Inl e \<Rightarrow> Inl e | Inr x \<Rightarrow> f x)"

section \<open>Value objects (schemas)\<close>

text \<open>
  The value objects of \<open>app.schemas\<close>, with the fields \<open>src/app/lib.py\<close> reads and
  writes. \<open>last\<close> and \<open>zip\<close> carry a prime: the plain names are list functions.
\<close>

record Owner =
  name :: string
  is_multi_entity :: bool

record DeliveryAddressLine =
  is_pobox :: bool
  attn :: "string option"
  number :: string
  street :: string
  secondary :: "string option"

record LastLine =
  city :: string
  state :: string
  zip' :: string

record Mailing =
  delivery :: DeliveryAddressLine
  last' :: LastLine

record OwnerAndMailing =
  owner :: "Owner option"
  mailing :: "Mailing option"

section \<open>Value normalizer\<close>

text \<open>
  A scraped fragment is a markup tag or a text node (\<open>NavigableString\<close>); \<open>str\<close> of a
  text node is its text. A \<open>string\<close> is a list of characters, read as code points
  below 256.
\<close>

datatype fragment = Tag string | NavigableString string

text \<open>
  The white space of \<open>str.strip\<close> and of the pattern \<open>\s\<close>: the code points for which
  \<open>str.isspace\<close> holds.
\<close>

definition isspace :: "char \<Rightarrow> bool" where
  "isspace c = ((of_char c :: nat) \<in> set [9, 10, 11, 12, 13, 28, 29, 30, 31, 32, 133, 160])"

definition strip :: "string \<Rightarrow> string" where
  "strip s = rev (dropWhile isspace (rev (dropWhile isspace s)))"

fun join :: "string \<Rightarrow> string list \<Rightarrow> string" where
  "join sep [] = []"
| "join sep [x] = x"
| "join sep (x # y # xs) = x @ sep @ join sep (y # xs)"

text \<open>\<open>_clean_tags\<close>: \<open>[str(tag) for tag in content if isinstance(tag, NavigableString)]\<close>.\<close>

fun clean_tags :: "fragment list \<Rightarrow> string list" where
  "clean_tags [] = []"
| "clean_tags (NavigableString s # content) = s # clean_tags content"
| "clean_tags (Tag s # content) = clean_tags content"

text \<open>
  \<open>_clean_whitespace\<close>: \<open>re.sub(r"\s+", " ", text)\<close>. Every maximal run of white space
  becomes one space.
\<close>

function clean_whitespace :: "string \<Rightarrow> string" where
  "clean_whitespace [] = []"
| "clean_whitespace (c # cs) =
     (if isspace c then CHR '' '' # clean_whitespace (dropWhile isspace cs)
      else c # clean_whitespace cs)"
  by pat_completeness auto
termination
  by (relation "measure length") (auto simp: length_dropWhile_le less_Suc_eq_le)

text \<open>\<open>owner_from_raw\<close>, lines 178 to 192 of \<open>src/app/lib.py\<close>.\<close>

definition owner_from_raw :: "fragment list \<Rightarrow> Owner" where
  "owner_from_raw data =
     (let owner_list = clean_tags data;
          is_multi_entity0 = (if length owner_list > 1 then True else False);
          dirty_owner = join '' & '' (map strip owner_list);
          clean_owner = clean_whitespace dirty_owner;
          is_multi_entity1 = (if dirty_owner \<noteq> clean_owner then True else is_multi_entity0)
      in \<lparr>name = clean_owner, is_multi_entity = is_multi_entity1\<rparr>)"

subsection \<open>The parse collaborators\<close>

text \<open>
  The address-line parsers of \<open>lib.parse\<close> are not part of the modelled sources. They
  are parameters: each takes the text of a fragment and returns a value or raises.
\<close>

record parsers =
  mortgage_delivery_address_line :: "string \<Rightarrow> error + DeliveryAddressLine"
  mortgage_last_line :: "string \<Rightarrow> string \<Rightarrow> error + LastLine"
  general_delivery_address_line :: "string \<Rightarrow> error + DeliveryAddressLine"
  general_city_state_zip :: "string \<Rightarrow> error + LastLine"

text \<open>\<open>mailing_from_raw_tax\<close>, lines 195 to 205.\<close>

definition mailing_from_raw_tax :: "parsers \<Rightarrow> fragment list \<Rightarrow> error + Mailing option" where
  "mailing_from_raw_tax ps data =
     (let address_list = clean_tags data in
      if length address_list = 3 then
        bind_err (mortgage_delivery_address_line ps (address_list ! 0)) (\<lambda>delivery_line.
        bind_err (mortgage_last_line ps (address_list ! 1) (address_list ! 2)) (\<lambda>last_line.
        Inr (Some \<lparr>delivery = delivery_line, last' = last_line\<rparr>)))
      else if address_list = [] then Inr None
      else Inl NotImplementedError)"

subsection \<open>The attention pattern\<close>

fun strip_prefix :: "string \<Rightarrow> string \<Rightarrow> string option" where
  "strip_prefix [] s = Some s"
| "strip_prefix (p # ps) [] = None"
| "strip_prefix (p # ps) (c # cs) = (if p = c then strip_prefix ps cs else None)"

text \<open>
  A match of \<open>ATT(N|ENTION):?\s+\<close> at the start of a string; the result is what
  follows the match. The alternatives differ in their first character, and a colon is
  not white space, so backtracking never finds a second way to match.
\<close>

definition match_spaces :: "string \<Rightarrow> string option" where
  "match_spaces s =
     (case s of
        [] \<Rightarrow> None
      | c # cs \<Rightarrow> if isspace c then Some (dropWhile isspace cs) else None)"

definition match_colon :: "string \<Rightarrow> string" where
  "match_colon s = (case strip_prefix '':'' s of Some r \<Rightarrow> r | None \<Rightarrow> s)"

definition match_n_or_ention :: "string \<Rightarrow> string option" where
  "match_n_or_ention s =
     (case strip_prefix ''N'' s of
        Some r \<Rightarrow> Some r
      | None \<Rightarrow> strip_prefix ''ENTION'' s)"

definition match_attn :: "string \<Rightarrow> string option" where
  "match_attn s =
     (case strip_prefix ''ATT'' s of
        None \<Rightarrow> None
      | Some r \<Rightarrow>
          (case match_n_or_ention r of
             None \<Rightarrow> None
           | Some r2 \<Rightarrow> match_spaces (match_colon r2)))"

lemma strip_prefix_length: "strip_prefix p s = Some r \<Longrightarrow> length r + length p = length s"
  by (induction p s rule: strip_prefix.induct) (auto split: if_splits)

lemma match_spaces_shorter: "match_spaces s = Some r \<Longrightarrow> length r < length s"
  by (auto simp: match_spaces_def less_Suc_eq_le length_dropWhile_le
           split: list.splits if_splits)

lemma match_colon_length: "length (match_colon s) \<le> length s"
  by (auto simp: match_colon_def split: option.splits dest: strip_prefix_length)

lemma match_n_or_ention_length: "match_n_or_ention s = Some r \<Longrightarrow> length r \<le> length s"
  by (auto simp: match_n_or_ention_def split: option.splits dest: strip_prefix_length)

lemma match_attn_shorter:
  assumes "match_attn s = Some r"
  shows "length r < length s"
proof -
  from assms obtain r0 r2 where r0: "strip_prefix ''ATT'' s = Some r0"
    and r2: "match_n_or_ention r0 = Some r2"
    and r: "match_spaces (match_colon r2) = Some r"
    by (auto simp: match_attn_def split: option.splits)
  have "length r < length (match_colon r2)"
    using r by (rule match_spaces_shorter)
  also have "\<dots> \<le> length r2"
    by (rule match_colon_length)
  also have "\<dots> \<le> length r0"
    using r2 by (rule match_n_or_ention_length)
  also have "\<dots> \<le> length s"
    using strip_prefix_length [OF r0] by simp
  finally show ?thesis .
qed

text \<open>
  \<open>re.sub(r"ATT(N|ENTION):?\s+", repl, s)\<close>: every match in \<open>s\<close>, leftmost first, is
  replaced by \<open>repl\<close>. The replacement is taken literally. For \<open>re\<close> a replacement that
  holds a backslash is a template, compiled before the search, and a bad escape in it
  raises \<open>re.error\<close> even when nothing matches; this function stands for the replacements
  without a backslash, and for the others it gives what \<open>re\<close> returns when the template
  compiles and no match refers to a group.
\<close>

function re_sub_attn :: "string \<Rightarrow> string \<Rightarrow> string" where
  "re_sub_attn repl [] = []"
| "re_sub_attn repl (c # cs) =
     (case match_attn (c # cs) of
        Some rest \<Rightarrow> repl @ re_sub_attn repl rest
      | None \<Rightarrow> c # re_sub_attn repl cs)"
  by pat_completeness auto
termination
  by (relation "measure (\<lambda>(repl, s). length s)") (auto dest: match_attn_shorter)

text \<open>
  \<open>mailing_from_raw_general\<close>, lines 208 to 222. Line 216 calls
  \<open>re.sub(pattern, address_list[0], "")\<close>: the first fragment is the replacement and the
  empty string is the text searched.
\<close>

definition mailing_from_raw_general :: "parsers \<Rightarrow> fragment list \<Rightarrow> error + Mailing option" where
  "mailing_from_raw_general ps data =
     (let address_list = clean_tags data in
      if length address_list = 2 then
        bind_err (general_delivery_address_line ps (address_list ! 0)) (\<lambda>delivery_line.
        bind_err (general_city_state_zip ps (address_list ! 1)) (\<lambda>last_line.
        Inr (Some \<lparr>delivery = delivery_line, last' = last_line\<rparr>)))
      else if length address_list = 3 then
        bind_err (general_delivery_address_line ps (address_list ! 1)) (\<lambda>delivery_line.
        let delivery_line = delivery_line\<lparr>attn := Some (re_sub_attn (address_list ! 0) [])\<rparr> in
        bind_err (general_city_state_zip ps (address_list ! 2)) (\<lambda>last_line.
        Inr (Some \<lparr>delivery = delivery_line, last' = last_line\<rparr>)))
      else if length address_list = 0 then Inr None
      else Inl RuntimeError)"

text \<open>
  Parsers for the examples: the building number is the first word of the line and the
  street is the rest; city and state are split at the comma.
\<close>

definition example_delivery :: "string \<Rightarrow> error + DeliveryAddressLine" where
  "example_delivery s =
     Inr \<lparr>is_pobox = False, attn = None,
          number = takeWhile (\<lambda>c. \<not> isspace c) s,
          street = strip (dropWhile (\<lambda>c. \<not> isspace c) s),
          secondary = None\<rparr>"

definition example_last :: "string \<Rightarrow> string \<Rightarrow> error + LastLine" where
  "example_last cs z =
     Inr \<lparr>city = takeWhile (\<lambda>c. c \<noteq> CHR '','') cs,
          state = strip (drop 1 (dropWhile (\<lambda>c. c \<noteq> CHR '','') cs)),
          zip' = z\<rparr>"

definition example_parsers :: parsers where
  "example_parsers =
     \<lparr>mortgage_delivery_address_line = example_delivery,
      mortgage_last_line = example_last,
      general_delivery_address_line = example_delivery,
      general_city_state_zip = (\<lambda>s. example_last s [])\<rparr>"

text \<open>
  A string in which no two neighbours are both white space: what collapsing every run of
  white space leaves.
\<close>

fun single_spaced :: "string \<Rightarrow> bool" where
  "single_spaced [] = True"
| "single_spaced [c] = True"
| "single_spaced (c # d # cs) = (\<not> (isspace c \<and> isspace d) \<and> single_spaced (d # cs))"

section \<open>The store\<close>

subsection \<open>Rows (orm)\<close>

text \<open>
  The rows of \<open>app.orm\<close>, with the columns that \<open>src/app/operations/select.py\<close> and
  \<open>src/app/lib.py\<close> name. A column that several tables have (\<open>deactivatedts\<close>,
  \<open>linkid\<close>, \<open>name\<close>, \<open>secondary\<close>, \<open>id\<close>, \<open>city\<close>) carries the table as a prefix.
  Keys and roles are natural numbers; \<open>deactivatedts\<close> is \<open>None\<close> for an active row.
\<close>

record Parcel =
  parcelkey :: nat
  parcelidcnty :: string
  muni_municode :: int
  parcel_deactivatedts :: "nat option"

record ParcelMailingAddress =
  pma_linkid :: nat
  parcel_parcelkey :: nat
  mailingaddress_addressid :: nat
  linkedobjectrole_lorid :: nat
  pma_deactivatedts :: "nat option"

record MailingAddress =
  addressid :: nat
  street_streetid :: nat
  bldgno :: string
  attention :: "string option"
  ma_secondary :: "string option"
  ma_deactivatedts :: "nat option"

record MailingStreet =
  streetid :: nat
  citystatezip_cszipid :: nat
  ms_name :: string
  pobox :: bool
  ms_deactivatedts :: "nat option"

record MailingCityStateZip =
  csz_id :: nat
  csz_city :: string
  state_abbr :: string
  zip_code :: string
  csz_deactivatedts :: "nat option"

record HumanMailingAddress =
  hma_linkid :: nat
  humanmailing_humanid :: "nat option"
  humanmailing_addressid :: "nat option"
  hma_role :: nat
  hma_deactivatedts :: "nat option"

record Human =
  humanid :: nat
  human_name :: string
  multihuman :: bool
  human_deactivatedts :: "nat option"

text \<open>
  Modelled from the spec: the row of a HumanParcelLink (\<open>orm.HumanParcel\<close>), none of whose
  columns is named in the sources: it associates a Human with a Parcel under a role and
  is soft-deletable.
\<close>

record HumanParcel =
  hp_linkid :: nat
  hp_humanid :: nat
  hp_parcelkey :: nat
  hp_role :: nat
  hp_deactivatedts :: "nat option"

subsection \<open>The database and the log of writes\<close>

text \<open>
  A call of the retirement, upsert or linking layer, with its arguments as the caller
  passes them. \<open>deactivate.human_to_parcel\<close> is passed the link itself on line 97 of
  \<open>src/app/lib.py\<close>, the other retirements are passed a key.
\<close>

datatype write_op =
    DeactivateParcelToAddress nat
  | DeactivateHumanToAddress nat
  | DeactivateAddress nat
  | DeactivateHumanToParcel HumanParcel
  | DeactivateHuman nat
  | EnsureCityStateZip string string string
  | EnsureStreet nat string bool
  | EnsureAddress nat string "string option" "string option"
  | EnsureHuman string bool
  | LinkParcelToAddress nat nat nat
  | LinkHumanToParcel nat nat nat
  | LinkHumanToAddress "nat option" "nat option" nat

text \<open>
  The session: one list of rows for each table, in the order the rows were inserted, the
  time stamp that a retirement writes, and the calls of the three writing layers so far.
\<close>

record db =
  parcels :: "Parcel list"
  parcel_mailing_addresses :: "ParcelMailingAddress list"
  mailing_addresses :: "MailingAddress list"
  mailing_streets :: "MailingStreet list"
  mailing_city_state_zips :: "MailingCityStateZip list"
  human_mailing_addresses :: "HumanMailingAddress list"
  humans :: "Human list"
  human_parcels :: "HumanParcel list"
  now :: nat
  writes :: "write_op list"

subsection \<open>Queries (operations/select.py)\<close>

text \<open>\<open>scalar_one\<close>: the only row of a result, \<open>NoResultFound\<close> or \<open>MultipleResultsFound\<close>.\<close>

definition scalar_one :: "'a list \<Rightarrow> error + 'a" where
  "scalar_one rows =
     (case rows of
        [] \<Rightarrow> Inl NoResultFound
      | [r] \<Rightarrow> Inr r
      | r # r' # rs \<Rightarrow> Inl MultipleResultsFound)"

definition select_parcel :: "db \<Rightarrow> string \<Rightarrow> error + Parcel" where
  "select_parcel session county_parcel_id =
     scalar_one (filter (\<lambda>p. parcelidcnty p = county_parcel_id \<and> parcel_deactivatedts p = None)
                        (parcels session))"

definition select_parcel_mailing_addresses :: "db \<Rightarrow> nat \<Rightarrow> ParcelMailingAddress list" where
  "select_parcel_mailing_addresses session parcel_key =
     filter (\<lambda>l. parcel_parcelkey l = parcel_key \<and> pma_deactivatedts l = None)
            (parcel_mailing_addresses session)"

definition select_address :: "db \<Rightarrow> nat \<Rightarrow> error + MailingAddress" where
  "select_address session address_id =
     scalar_one (filter (\<lambda>a. addressid a = address_id \<and> ma_deactivatedts a = None)
                        (mailing_addresses session))"

definition select_street :: "db \<Rightarrow> nat \<Rightarrow> error + MailingStreet" where
  "select_street session street_id =
     scalar_one (filter (\<lambda>s. streetid s = street_id \<and> ms_deactivatedts s = None)
                        (mailing_streets session))"

definition select_city_state_zip :: "db \<Rightarrow> nat \<Rightarrow> error + MailingCityStateZip" where
  "select_city_state_zip session city_state_zip_id =
     scalar_one (filter (\<lambda>c. csz_id c = city_state_zip_id \<and> csz_deactivatedts c = None)
                        (mailing_city_state_zips session))"

definition select_human_mailing_address :: "db \<Rightarrow> nat \<Rightarrow> error + HumanMailingAddress" where
  "select_human_mailing_address session address_id =
     scalar_one (filter (\<lambda>l. humanmailing_addressid l = Some address_id \<and> hma_deactivatedts l = None)
                        (human_mailing_addresses session))"

text \<open>
  \<open>select.human\<close> is called with the \<open>humanmailing_humanid\<close> of a link, which may be
  null; no row has a null key.
\<close>

definition select_human :: "db \<Rightarrow> nat option \<Rightarrow> error + Human" where
  "select_human session human_id =
     scalar_one (filter (\<lambda>h. Some (humanid h) = human_id \<and> human_deactivatedts h = None)
                        (humans session))"

text \<open>\<open>parcels_by_municode\<close> does not look at \<open>deactivatedts\<close>.\<close>

definition parcels_by_municode :: "db \<Rightarrow> int \<Rightarrow> Parcel list" where
  "parcels_by_municode session municode =
     filter (\<lambda>p. muni_municode p = municode) (parcels session)"

subsection \<open>The writing layers\<close>

text \<open>The key of a new row: one more than the largest key of the table.\<close>

definition next_id :: "nat list \<Rightarrow> nat" where
  "next_id ids = Suc (fold max ids 0)"

text \<open>
  Modelled from the spec: \<open>deactivate.parcel_to_address\<close> of the Retirement Layer
  (\<open>app.operations.deactivate\<close>), which soft-deletes a link by identifier and never
  physically deletes.
\<close>

definition deactivate_parcel_to_address :: "db \<Rightarrow> nat \<Rightarrow> db" where
  "deactivate_parcel_to_address session i =
     session\<lparr>parcel_mailing_addresses :=
               map (\<lambda>l. if pma_linkid l = i then l\<lparr>pma_deactivatedts := Some (now session)\<rparr> else l)
                   (parcel_mailing_addresses session),
             writes := writes session @ [DeactivateParcelToAddress i]\<rparr>"

text \<open>Modelled from the spec: \<open>deactivate.human_to_address\<close> of the Retirement Layer.\<close>

definition deactivate_human_to_address :: "db \<Rightarrow> nat \<Rightarrow> db" where
  "deactivate_human_to_address session i =
     session\<lparr>human_mailing_addresses :=
               map (\<lambda>l. if hma_linkid l = i then l\<lparr>hma_deactivatedts := Some (now session)\<rparr> else l)
                   (human_mailing_addresses session),
             writes := writes session @ [DeactivateHumanToAddress i]\<rparr>"

text \<open>Modelled from the spec: \<open>deactivate.address\<close> of the Retirement Layer.\<close>

definition deactivate_address :: "db \<Rightarrow> nat \<Rightarrow> db" where
  "deactivate_address session i =
     session\<lparr>mailing_addresses :=
               map (\<lambda>a. if addressid a = i then a\<lparr>ma_deactivatedts := Some (now session)\<rparr> else a)
                   (mailing_addresses session),
             writes := writes session @ [DeactivateAddress i]\<rparr>"

text \<open>Modelled from the spec: \<open>deactivate.human\<close> of the Retirement Layer.\<close>

definition deactivate_human :: "db \<Rightarrow> nat \<Rightarrow> db" where
  "deactivate_human session i =
     session\<lparr>humans :=
               map (\<lambda>h. if humanid h = i then h\<lparr>human_deactivatedts := Some (now session)\<rparr> else h)
                   (humans session),
             writes := writes session @ [DeactivateHuman i]\<rparr>"

text \<open>
  Modelled from the spec: \<open>deactivate.human_to_parcel\<close> of the Retirement Layer, which
  soft-deletes the link with the given identifier. Its caller passes a link where the
  identifier is expected; no row has a link for its key, so no row is marked.
\<close>

definition deactivate_human_to_parcel :: "db \<Rightarrow> HumanParcel \<Rightarrow> db" where
  "deactivate_human_to_parcel session l =
     session\<lparr>writes := writes session @ [DeactivateHumanToParcel l]\<rparr>"

text \<open>
  Modelled from the spec: \<open>ensure.city_state_zip\<close> of the Entity Upsert Layer
  (\<open>app.operations.ensure\<close>): the existing active row with these attributes, or a new
  one; existing rows are never changed.
\<close>

definition ensure_city_state_zip ::
  "db \<Rightarrow> string \<Rightarrow> string \<Rightarrow> string \<Rightarrow> db \<times> MailingCityStateZip" where
  "ensure_city_state_zip session c st z =
     (let logged = session\<lparr>writes := writes session @ [EnsureCityStateZip c st z]\<rparr> in
      case find (\<lambda>r. csz_city r = c \<and> state_abbr r = st \<and> zip_code r = z
                      \<and> csz_deactivatedts r = None)
                (mailing_city_state_zips session) of
        Some r \<Rightarrow> (logged, r)
      | None \<Rightarrow>
          (let r = \<lparr>csz_id = next_id (map csz_id (mailing_city_state_zips session)),
                    csz_city = c, state_abbr = st, zip_code = z, csz_deactivatedts = None\<rparr>
           in (logged\<lparr>mailing_city_state_zips := mailing_city_state_zips session @ [r]\<rparr>, r)))"

text \<open>Modelled from the spec: \<open>ensure.street\<close> of the Entity Upsert Layer.\<close>

definition ensure_street :: "db \<Rightarrow> nat \<Rightarrow> string \<Rightarrow> bool \<Rightarrow> db \<times> MailingStreet" where
  "ensure_street session city_state_zip_id street_name pb =
     (let logged = session\<lparr>writes := writes session @ [EnsureStreet city_state_zip_id street_name pb]\<rparr> in
      case find (\<lambda>r. citystatezip_cszipid r = city_state_zip_id \<and> ms_name r = street_name
                      \<and> pobox r = pb \<and> ms_deactivatedts r = None)
                (mailing_streets session) of
        Some r \<Rightarrow> (logged, r)
      | None \<Rightarrow>
          (let r = \<lparr>streetid = next_id (map streetid (mailing_streets session)),
                    citystatezip_cszipid = city_state_zip_id, ms_name = street_name,
                    pobox = pb, ms_deactivatedts = None\<rparr>
           in (logged\<lparr>mailing_streets := mailing_streets session @ [r]\<rparr>, r)))"

text \<open>Modelled from the spec: \<open>ensure.address\<close> of the Entity Upsert Layer.\<close>

definition ensure_address ::
  "db \<Rightarrow> nat \<Rightarrow> string \<Rightarrow> string option \<Rightarrow> string option \<Rightarrow> db \<times> MailingAddress" where
  "ensure_address session street_id num at sec =
     (let logged = session\<lparr>writes := writes session @ [EnsureAddress street_id num at sec]\<rparr> in
      case find (\<lambda>r. street_streetid r = street_id \<and> bldgno r = num \<and> attention r = at
                      \<and> ma_secondary r = sec \<and> ma_deactivatedts r = None)
                (mailing_addresses session) of
        Some r \<Rightarrow> (logged, r)
      | None \<Rightarrow>
          (let r = \<lparr>addressid = next_id (map addressid (mailing_addresses session)),
                    street_streetid = street_id, bldgno = num, attention = at,
                    ma_secondary = sec, ma_deactivatedts = None\<rparr>
           in (logged\<lparr>mailing_addresses := mailing_addresses session @ [r]\<rparr>, r)))"

text \<open>Modelled from the spec: \<open>ensure.human\<close> of the Entity Upsert Layer.\<close>

definition ensure_human :: "db \<Rightarrow> string \<Rightarrow> bool \<Rightarrow> db \<times> Human" where
  "ensure_human session nm multi =
     (let logged = session\<lparr>writes := writes session @ [EnsureHuman nm multi]\<rparr> in
      case find (\<lambda>r. human_name r = nm \<and> multihuman r = multi \<and> human_deactivatedts r = None)
                (humans session) of
        Some r \<Rightarrow> (logged, r)
      | None \<Rightarrow>
          (let r = \<lparr>humanid = next_id (map humanid (humans session)),
                    human_name = nm, multihuman = multi, human_deactivatedts = None\<rparr>
           in (logged\<lparr>humans := humans session @ [r]\<rparr>, r)))"

text \<open>
  Modelled from the spec: \<open>link.parcel_to_address\<close> of the Linking Layer
  (\<open>app.operations.link\<close>), which creates a new role-scoped association row.
\<close>

definition link_parcel_to_address :: "db \<Rightarrow> nat \<Rightarrow> nat \<Rightarrow> nat \<Rightarrow> db" where
  "link_parcel_to_address session pk address_id role =
     session\<lparr>parcel_mailing_addresses :=
               parcel_mailing_addresses session @
               [\<lparr>pma_linkid = next_id (map pma_linkid (parcel_mailing_addresses session)),
                 parcel_parcelkey = pk, mailingaddress_addressid = address_id,
                 linkedobjectrole_lorid = role, pma_deactivatedts = None\<rparr>],
             writes := writes session @ [LinkParcelToAddress pk address_id role]\<rparr>"

text \<open>Modelled from the spec: \<open>link.human_to_parcel\<close> of the Linking Layer.\<close>

definition link_human_to_parcel :: "db \<Rightarrow> nat \<Rightarrow> nat \<Rightarrow> nat \<Rightarrow> db" where
  "link_human_to_parcel session pk human_id role =
     session\<lparr>human_parcels :=
               human_parcels session @
               [\<lparr>hp_linkid = next_id (map hp_linkid (human_parcels session)),
                 hp_humanid = human_id, hp_parcelkey = pk, hp_role = role,
                 hp_deactivatedts = None\<rparr>],
             writes := writes session @ [LinkHumanToParcel pk human_id role]\<rparr>"

text \<open>
  Modelled from the spec: \<open>link.human_to_address\<close> of the Linking Layer. Either key
  may be null (lines 55, 91 and 114 of \<open>src/app/lib.py\<close>); the row is created with it.
\<close>

definition link_human_to_address :: "db \<Rightarrow> nat option \<Rightarrow> nat option \<Rightarrow> nat \<Rightarrow> db" where
  "link_human_to_address session human_id address_id role =
     session\<lparr>human_mailing_addresses :=
               human_mailing_addresses session @
               [\<lparr>hma_linkid = next_id (map hma_linkid (human_mailing_addresses session)),
                 humanmailing_humanid = human_id, humanmailing_addressid = address_id,
                 hma_role = role, hma_deactivatedts = None\<rparr>],
             writes := writes session @ [LinkHumanToAddress human_id address_id role]\<rparr>"

section \<open>The active chain\<close>

text \<open>
  \<open>schemas.CogTables\<close>: the active rows of one parcel under one role pair, every field
  optional. The fields carry the prefix \<open>cog\<close> (\<open>street\<close> is a field of the delivery
  line as well).
\<close>

record CogTables =
  cog_parcel :: "Parcel option"
  cog_address :: "MailingAddress option"
  cog_parcel_address :: "ParcelMailingAddress option"
  cog_street :: "MailingStreet option"
  cog_city_state_zip :: "MailingCityStateZip option"
  cog_human :: "Human option"
  cog_human_address :: "HumanMailingAddress option"
  cog_human_parcel :: "HumanParcel option"

text \<open>\<open>schemas.CogTables()\<close>: no field given.\<close>

definition empty_tables :: CogTables where
  "empty_tables =
     \<lparr>cog_parcel = None, cog_address = None, cog_parcel_address = None, cog_street = None,
      cog_city_state_zip = None, cog_human = None, cog_human_address = None,
      cog_human_parcel = None\<rparr>"

record CogGeneralAndMortgage =
  cog_general :: CogTables
  cog_mortgage :: CogTables

record GeneralAndMortgage =
  general :: OwnerAndMailing
  mortgage :: OwnerAndMailing

text \<open>
  Modelled from the spec: the property \<open>has_address_tables\<close> of \<open>schemas.CogTables\<close>,
  which is not in the sources: the address sub-chain (address, street and city/state/zip)
  is present.
\<close>

definition has_address_tables :: "CogTables \<Rightarrow> bool" where
  "has_address_tables t =
     (cog_address t \<noteq> None \<and> cog_street t \<noteq> None \<and> cog_city_state_zip t \<noteq> None)"

text \<open>
  Modelled from the spec: \<open>schemas.Mailing\<close> called with the keywords \<open>delivery_line\<close> and
  \<open>last_line\<close>, as lines 130 to 143 call it. \<open>app.schemas\<close> is not in the sources, and
  every other line names the two fields of a \<open>Mailing\<close> \<open>delivery\<close> and \<open>last\<close> (lines 70
  to 72, 76 to 89, 205 and 222), so what the class does with these two keywords cannot
  be read off the sources. The spec has the projection give a value of the shape of the
  scraped one, compared leaf by leaf: the two arguments fill the two fields.
\<close>

definition Mailing_of_lines :: "DeliveryAddressLine \<Rightarrow> LastLine \<Rightarrow> Mailing" where
  "Mailing_of_lines delivery_line last_line = \<lparr>delivery = delivery_line, last' = last_line\<rparr>"

text \<open>
  \<open>_cog_tables_to_owner_and_mailing\<close>, lines 123 to 147. With \<open>has_address_tables\<close> the
  three rows are present. Only a chain with its three address rows reaches the call of
  lines 130 to 143.
\<close>

definition cog_tables_to_owner_and_mailing :: "CogTables option \<Rightarrow> OwnerAndMailing" where
  "cog_tables_to_owner_and_mailing t =
     \<lparr>owner =
        (case t of
           None \<Rightarrow> None
         | Some t \<Rightarrow>
             (case cog_human t of
                None \<Rightarrow> None
              | Some h \<Rightarrow> Some \<lparr>name = human_name h, is_multi_entity = multihuman h\<rparr>)),
      mailing =
        (case t of
           None \<Rightarrow> None
         | Some t \<Rightarrow>
             if \<not> has_address_tables t then None
             else
               (case (cog_address t, cog_street t, cog_city_state_zip t) of
                  (Some a, Some s, Some c) \<Rightarrow>
                    Some (Mailing_of_lines
                            \<lparr>is_pobox = pobox s, attn = attention a, number = bldgno a,
                             street = ms_name s, secondary = ma_secondary a\<rparr>
                            \<lparr>city = csz_city c, state = state_abbr c, zip' = zip_code c\<rparr>)
                | _ \<Rightarrow> None))\<rparr>"

section \<open>Reconciliation\<close>

text \<open>
  Lines 58 to 67: the retirements of the address side, each only if the chain has the
  row.
\<close>

definition retire_address_side :: "db \<Rightarrow> CogTables option \<Rightarrow> db" where
  "retire_address_side session cog_tables =
     (case cog_tables of
        None \<Rightarrow> session
      | Some t \<Rightarrow>
          (let s1 = (case cog_parcel_address t of
                       Some l \<Rightarrow> deactivate_parcel_to_address session (pma_linkid l)
                     | None \<Rightarrow> session);
               s2 = (case cog_human_address t of
                       Some l \<Rightarrow> deactivate_human_to_address s1 (hma_linkid l)
                     | None \<Rightarrow> s1);
               s3 = (case cog_address t of
                       Some a \<Rightarrow> deactivate_address s2 (addressid a)
                     | None \<Rightarrow> s2)
           in s3))"

text \<open>
  Lines 55 to 89, the address side: the result is the session with \<open>address_id\<close> and
  \<open>returned_address\<close>. Reading \<open>county_data.mailing.last\<close> when the scraped mailing is
  \<open>None\<close>, and \<open>cog_tables.parcel.parcelkey\<close> when there is no chain or no parcel in
  it, raises \<open>AttributeError\<close>; the writes made before stay in the session.
\<close>

definition sync_address ::
  "db \<Rightarrow> OwnerAndMailing \<Rightarrow> CogTables option \<Rightarrow> nat
   \<Rightarrow> db \<times> (error + nat option \<times> Mailing option)" where
  "sync_address session county_data cog_tables address_role =
     (let cog_data = cog_tables_to_owner_and_mailing cog_tables;
          address_id = (case cog_tables of
                          None \<Rightarrow> None
                        | Some t \<Rightarrow> map_option addressid (cog_address t));
          returned_address = mailing county_data;
          same_address = (mailing county_data = mailing cog_data)
      in if \<not> same_address then
           (let s1 = retire_address_side session cog_tables in
            case mailing county_data of
              None \<Rightarrow> (s1, Inl AttributeError)
            | Some m \<Rightarrow>
                (let (s2, city_state_zip_table) =
                       ensure_city_state_zip s1 (city (last' m)) (state (last' m)) (zip' (last' m));
                     (s3, street_table) =
                       ensure_street s2 (csz_id city_state_zip_table) (street (delivery m))
                         (is_pobox (delivery m));
                     (s4, address_table) =
                       ensure_address s3 (streetid street_table) (number (delivery m))
                         (attn (delivery m)) (secondary (delivery m))
                 in case Option.bind cog_tables cog_parcel of
                      None \<Rightarrow> (s4, Inl AttributeError)
                    | Some p \<Rightarrow>
                        (link_parcel_to_address s4 (parcelkey p) (addressid address_table)
                           address_role,
                         Inr (Some (addressid address_table),
                              Some \<lparr>delivery =
                                      \<lparr>is_pobox = pobox street_table,
                                       attn = attention address_table,
                                       number = bldgno address_table,
                                       street = ms_name street_table,
                                       secondary = ma_secondary address_table\<rparr>,
                                    last' =
                                      \<lparr>city = csz_city city_state_zip_table,
                                       state = state_abbr city_state_zip_table,
                                       zip' = zip_code city_state_zip_table\<rparr>\<rparr>))))
         else (session, Inr (address_id, returned_address)))"

text \<open>Lines 95 to 104: the retirements of the human side.\<close>

definition retire_human_side :: "db \<Rightarrow> CogTables option \<Rightarrow> db" where
  "retire_human_side session cog_tables =
     (case cog_tables of
        None \<Rightarrow> session
      | Some t \<Rightarrow>
          (let s1 = (case cog_human_parcel t of
                       Some l \<Rightarrow> deactivate_human_to_parcel session l
                     | None \<Rightarrow> session);
               s2 = (case cog_human_address t of
                       Some l \<Rightarrow> deactivate_human_to_address s1 (hma_linkid l)
                     | None \<Rightarrow> s1);
               s3 = (case cog_human t of
                       Some h \<Rightarrow> deactivate_human s2 (humanid h)
                     | None \<Rightarrow> s2)
           in s3))"

text \<open>Lines 91 to 111, the human side: the session with \<open>human_id\<close> and \<open>returned_human\<close>.\<close>

definition sync_human ::
  "db \<Rightarrow> OwnerAndMailing \<Rightarrow> CogTables option \<Rightarrow> nat
   \<Rightarrow> db \<times> (error + nat option \<times> Owner option)" where
  "sync_human session county_data cog_tables addressee_role =
     (let cog_data = cog_tables_to_owner_and_mailing cog_tables;
          human_id = (case cog_tables of
                        None \<Rightarrow> None
                      | Some t \<Rightarrow> map_option humanid (cog_human t));
          returned_human = owner county_data;
          same_human = (owner county_data = owner cog_data)
      in if \<not> same_human then
           (let s1 = retire_human_side session cog_tables in
            case owner county_data of
              None \<Rightarrow> (s1, Inl AttributeError)
            | Some ow \<Rightarrow>
                (let (s2, human_table) = ensure_human s1 (name ow) (is_multi_entity ow)
                 in case Option.bind cog_tables cog_parcel of
                      None \<Rightarrow> (s2, Inl AttributeError)
                    | Some p \<Rightarrow>
                        (link_human_to_parcel s2 (parcelkey p) (humanid human_table)
                           addressee_role,
                         Inr (Some (humanid human_table),
                              Some \<lparr>name = human_name human_table,
                                    is_multi_entity = multihuman human_table\<rparr>))))
         else (session, Inr (human_id, returned_human)))"

text \<open>
  \<open>_sync_owner_and_mailing\<close>, lines 40 to 119: the address side, the human side, the
  cross link of lines 113 and 114 when either side changed, and the value returned.
\<close>

definition sync_owner_and_mailing ::
  "db \<Rightarrow> OwnerAndMailing \<Rightarrow> CogTables option \<Rightarrow> nat \<times> nat
   \<Rightarrow> db \<times> (error + OwnerAndMailing)" where
  "sync_owner_and_mailing session county_data cog_tables address_and_human_roles =
     (let (address_role, addressee_role) = address_and_human_roles;
          cog_data = cog_tables_to_owner_and_mailing cog_tables;
          same_address = (mailing county_data = mailing cog_data);
          same_human = (owner county_data = owner cog_data)
      in case sync_address session county_data cog_tables address_role of
           (s1, Inl e) \<Rightarrow> (s1, Inl e)
         | (s1, Inr (address_id, returned_address)) \<Rightarrow>
             (case sync_human s1 county_data cog_tables addressee_role of
                (s2, Inl e) \<Rightarrow> (s2, Inl e)
              | (s2, Inr (human_id, returned_human)) \<Rightarrow>
                  (let s3 = (if \<not> same_human \<or> \<not> same_address
                             then link_human_to_address s2 human_id address_id addressee_role
                             else s2)
                   in (s3, Inr \<lparr>owner = returned_human, mailing = returned_address\<rparr>))))"

section \<open>The active-record reader\<close>

text \<open>
  The constants of \<open>app.constants.LinkedObjectRole\<close>, which is not in the sources. They
  are parameters.
\<close>

record LinkedObjectRole =
  GENERAL_HUMAN_MAILING_ADDRESS :: nat
  MORTGAGE_HUMAN_MAILING_ADDRESS :: nat
  general_roles :: "nat \<times> nat"
  mortgage_roles :: "nat \<times> nat"

text \<open>
  The body of the loop of \<open>get_cog_tables\<close>, lines 240 to 255. Only \<open>NoResultFound\<close>
  is caught, and only around the two queries of the human side.
\<close>

definition read_tables :: "db \<Rightarrow> ParcelMailingAddress \<Rightarrow> error + CogTables" where
  "read_tables session parcel_address =
     bind_err (select_address session (mailingaddress_addressid parcel_address)) (\<lambda>address.
     bind_err (select_street session (street_streetid address)) (\<lambda>street_row.
     bind_err (select_city_state_zip session (citystatezip_cszipid street_row)) (\<lambda>city_state_zip.
     (let tables = (\<lambda>human human_address.
            \<lparr>cog_parcel = None, cog_address = Some address,
             cog_parcel_address = Some parcel_address, cog_street = Some street_row,
             cog_city_state_zip = Some city_state_zip, cog_human = human,
             cog_human_address = human_address, cog_human_parcel = None\<rparr>)
      in case bind_err (select_human_mailing_address session (addressid address))
                (\<lambda>human_address.
                   bind_err (select_human session (humanmailing_humanid human_address))
                     (\<lambda>human. Inr (human_address, human))) of
           Inr (human_address, human) \<Rightarrow> Inr (tables (Some human) (Some human_address))
         | Inl NoResultFound \<Rightarrow> Inr (tables None None)
         | Inl e \<Rightarrow> Inl e))))"

fun read_all :: "db \<Rightarrow> ParcelMailingAddress list \<Rightarrow> error + CogTables list" where
  "read_all session [] = Inr []"
| "read_all session (parcel_address # rest) =
     bind_err (read_tables session parcel_address) (\<lambda>tables.
     bind_err (read_all session rest) (\<lambda>all_addresses. Inr (tables # all_addresses)))"

text \<open>\<open>_match_number\<close>, lines 265 to 269.\<close>

fun match_number :: "nat \<Rightarrow> CogTables list \<Rightarrow> error + CogTables option" where
  "match_number num_to_match [] = Inr None"
| "match_number num_to_match (x # owners_and_mailings) =
     (case cog_parcel_address x of
        None \<Rightarrow> Inl AttributeError
      | Some l \<Rightarrow>
          if linkedobjectrole_lorid l = num_to_match then Inr (Some x)
          else match_number num_to_match owners_and_mailings)"

text \<open>
  \<open>get_cog_tables\<close>, lines 233 to 262. \<open>select.parcel\<close> ends in \<open>scalar_one\<close>, which
  returns a row or raises, so the test \<open>parcel is None\<close> of line 236 never holds.
\<close>

definition get_cog_tables :: "LinkedObjectRole \<Rightarrow> db \<Rightarrow> string \<Rightarrow> error + CogGeneralAndMortgage" where
  "get_cog_tables k session parcel_id =
     bind_err (select_parcel session parcel_id) (\<lambda>parcel.
     bind_err (read_all session (select_parcel_mailing_addresses session (parcelkey parcel)))
       (\<lambda>all_addresses.
     bind_err (match_number (GENERAL_HUMAN_MAILING_ADDRESS k) all_addresses) (\<lambda>g.
     bind_err (match_number (MORTGAGE_HUMAN_MAILING_ADDRESS k) all_addresses) (\<lambda>m.
     (let general_tables = (case g of Some t \<Rightarrow> t | None \<Rightarrow> empty_tables);
          mortgage_tables = (case m of Some t \<Rightarrow> t | None \<Rightarrow> empty_tables)
      in Inr \<lparr>cog_general = general_tables\<lparr>cog_parcel := Some parcel\<rparr>,
              cog_mortgage = mortgage_tables\<lparr>cog_parcel := Some parcel\<rparr>\<rparr>)))))"

section \<open>Top-level sync\<close>

text \<open>
  The scrape client and the page parsers are collaborators outside the sources: for a
  parcel id, the owner and mailing fragments of the general page and of the tax page, or
  the exception raised on the way (\<open>HttpError\<close>, \<open>HtmlParsingError\<close>).
\<close>

record pages =
  general_page :: "string \<Rightarrow> error + fragment list \<times> fragment list"
  tax_page :: "string \<Rightarrow> error + fragment list \<times> fragment list"

text \<open>\<open>get_general_data_from_county\<close>, lines 160 to 166.\<close>

definition get_general_data_from_county ::
  "pages \<Rightarrow> parsers \<Rightarrow> string \<Rightarrow> error + OwnerAndMailing" where
  "get_general_data_from_county pg ps parcel_id =
     bind_err (general_page pg parcel_id) (\<lambda>(raw_owner, raw_mailing).
     (let ow = owner_from_raw raw_owner in
      bind_err (mailing_from_raw_general ps raw_mailing) (\<lambda>ml.
      Inr \<lparr>owner = Some ow, mailing = ml\<rparr>)))"

text \<open>\<open>get_tax_data_from_county\<close>, lines 169 to 175.\<close>

definition get_tax_data_from_county ::
  "pages \<Rightarrow> parsers \<Rightarrow> string \<Rightarrow> error + OwnerAndMailing" where
  "get_tax_data_from_county pg ps parcel_id =
     bind_err (tax_page pg parcel_id) (\<lambda>(raw_owner, raw_mailing).
     (let ow = owner_from_raw raw_owner in
      bind_err (mailing_from_raw_tax ps raw_mailing) (\<lambda>ml.
      Inr \<lparr>owner = Some ow, mailing = ml\<rparr>)))"

text \<open>\<open>get_parcel_data_from_county\<close>, lines 154 to 157.\<close>

definition get_parcel_data_from_county ::
  "pages \<Rightarrow> parsers \<Rightarrow> string \<Rightarrow> error + GeneralAndMortgage" where
  "get_parcel_data_from_county pg ps parcel_id =
     bind_err (get_general_data_from_county pg ps parcel_id) (\<lambda>general_data.
     bind_err (get_tax_data_from_county pg ps parcel_id) (\<lambda>tax_data.
     Inr \<lparr>general = general_data, mortgage = tax_data\<rparr>))"

text \<open>
  Lines 22 to 37 of \<open>sync_parcel_data\<close>: the chains are read once, then the general
  and the mortgage data are reconciled in turn. The results are stored under the role
  pairs as keys, so with equal pairs the second result replaces the first.
\<close>

definition sync_county_data ::
  "LinkedObjectRole \<Rightarrow> db \<Rightarrow> string \<Rightarrow> GeneralAndMortgage
   \<Rightarrow> db \<times> (error + GeneralAndMortgage)" where
  "sync_county_data k session parcel_id county_data =
     (case get_cog_tables k session parcel_id of
        Inl e \<Rightarrow> (session, Inl e)
      | Inr cog_tables \<Rightarrow>
          (case sync_owner_and_mailing session (general county_data)
                  (Some (cog_general cog_tables)) (general_roles k) of
             (s1, Inl e) \<Rightarrow> (s1, Inl e)
           | (s1, Inr g) \<Rightarrow>
               (case sync_owner_and_mailing s1 (mortgage county_data)
                       (Some (cog_mortgage cog_tables)) (mortgage_roles k) of
                  (s2, Inl e) \<Rightarrow> (s2, Inl e)
                | (s2, Inr m) \<Rightarrow>
                    (s2, Inr \<lparr>general = (if general_roles k = mortgage_roles k then m else g),
                              mortgage = m\<rparr>))))"

text \<open>\<open>sync_parcel_data\<close>, lines 20 to 37: the county's data is fetched first.\<close>

definition sync_parcel_data ::
  "pages \<Rightarrow> parsers \<Rightarrow> LinkedObjectRole \<Rightarrow> db \<Rightarrow> string
   \<Rightarrow> db \<times> (error + GeneralAndMortgage)" where
  "sync_parcel_data pg ps k session parcel_id =
     (case get_parcel_data_from_county pg ps parcel_id of
        Inl e \<Rightarrow> (session, Inl e)
      | Inr county_data \<Rightarrow> sync_county_data k session parcel_id county_data)"

section \<open>The municipality batch (app.py)\<close>

record MunicipalitySyncData =
  total :: nat
  skipped :: "nat list"

text \<open>
  The loop of \<open>sync_municipality\<close>, lines 37 to 44: \<open>HtmlParsingError\<close> is caught and
  the parcel's key recorded; \<open>finally\<close> counts the parcel in every case; any other
  exception leaves the function after the count. The pause of line 44 is not modelled.
\<close>

fun sync_loop ::
  "(db \<Rightarrow> string \<Rightarrow> db \<times> (error + GeneralAndMortgage)) \<Rightarrow> db \<Rightarrow> Parcel list
   \<Rightarrow> MunicipalitySyncData \<Rightarrow> db \<times> (error + MunicipalitySyncData)" where
  "sync_loop step session [] sync_data = (session, Inr sync_data)"
| "sync_loop step session (parcel # rest) sync_data =
     (case step session (parcelidcnty parcel) of
        (s1, Inr r) \<Rightarrow>
          sync_loop step s1 rest (sync_data\<lparr>total := total sync_data + 1\<rparr>)
      | (s1, Inl HtmlParsingError) \<Rightarrow>
          sync_loop step s1 rest
            (sync_data\<lparr>skipped := skipped sync_data @ [parcelkey parcel],
                       total := total sync_data + 1\<rparr>)
      | (s1, Inl e) \<Rightarrow> (s1, Inl e))"

text \<open>\<open>sync_municipality\<close>, lines 30 to 45.\<close>

definition sync_municipality ::
  "pages \<Rightarrow> parsers \<Rightarrow> LinkedObjectRole \<Rightarrow> db \<Rightarrow> int
   \<Rightarrow> db \<times> (error + MunicipalitySyncData)" where
  "sync_municipality pg ps k session municode =
     sync_loop (sync_parcel_data pg ps k) session (parcels_by_municode session municode)
       \<lparr>total = 0, skipped = []\<rparr>"

section \<open>Notions used in the statements\<close>

text \<open>
  The writes of the address side of a reconciliation: lines 62 to 74 with the exception
  of the retirement of the HumanMailingAddress link, which both sides make.
\<close>

fun address_side_write :: "write_op \<Rightarrow> bool" where
  "address_side_write (DeactivateParcelToAddress i) = True"
| "address_side_write (DeactivateAddress i) = True"
| "address_side_write (EnsureCityStateZip c s z) = True"
| "address_side_write (EnsureStreet i n p) = True"
| "address_side_write (EnsureAddress i n a s) = True"
| "address_side_write (LinkParcelToAddress p a r) = True"
| "address_side_write w = False"

text \<open>
  A chain, if any, without a HumanParcel link.
\<close>

definition no_human_parcel :: "CogTables option \<Rightarrow> bool" where
  "no_human_parcel ct = (case ct of None \<Rightarrow> True | Some t \<Rightarrow> cog_human_parcel t = None)"

text \<open>
  The write of line 97.
\<close>

definition retires_human_parcel :: "write_op \<Rightarrow> bool" where
  "retires_human_parcel w = (case w of DeactivateHumanToParcel l \<Rightarrow> True | _ \<Rightarrow> False)"

text \<open>
  The parcels that the batch skips: fetching the county's data raises
  \<open>HtmlParsingError\<close>.
\<close>

definition html_fails :: "pages \<Rightarrow> parsers \<Rightarrow> Parcel \<Rightarrow> bool" where
  "html_fails pg ps parcel =
     (get_parcel_data_from_county pg ps (parcelidcnty parcel) = Inl HtmlParsingError)"

text \<open>
  The active ParcelMailingAddress links of a parcel under a role: the rows the invariant
  counts.
\<close>

definition active_link :: "nat \<Rightarrow> nat \<Rightarrow> ParcelMailingAddress \<Rightarrow> bool" where
  "active_link pk role l =
     (parcel_parcelkey l = pk \<and> linkedobjectrole_lorid l = role \<and> pma_deactivatedts l = None)"

definition active_links :: "db \<Rightarrow> nat \<Rightarrow> nat \<Rightarrow> ParcelMailingAddress list" where
  "active_links s pk role = filter (active_link pk role) (parcel_mailing_addresses s)"

text \<open>
  What the retirements of the address side do to the link table: the rows with the key
  of the chain's link are marked, if the chain has a link.
\<close>

definition retire_links ::
  "CogTables option \<Rightarrow> nat \<Rightarrow> ParcelMailingAddress list \<Rightarrow> ParcelMailingAddress list" where
  "retire_links ct ts xs =
     (case Option.bind ct cog_parcel_address of
        None \<Rightarrow> xs
      | Some l \<Rightarrow>
          map (\<lambda>x. if pma_linkid x = pma_linkid l then x\<lparr>pma_deactivatedts := Some ts\<rparr> else x) xs)"

text \<open>
  The rows that the retirement of the chain's link leaves active.
\<close>

definition not_chain_link :: "CogTables option \<Rightarrow> ParcelMailingAddress \<Rightarrow> bool" where
  "not_chain_link ct x =
     (case Option.bind ct cog_parcel_address of
        None \<Rightarrow> True
      | Some l \<Rightarrow> pma_linkid x \<noteq> pma_linkid l)"

text \<open>
  The chain agrees with the store on a pair (parcel, role): every active link of the pair
  has the key of the chain's link, and there is none when the chain has no link.
\<close>

definition chain_link_ok :: "db \<Rightarrow> nat \<Rightarrow> nat \<Rightarrow> CogTables \<Rightarrow> bool" where
  "chain_link_ok s pk role t =
     (case cog_parcel_address t of
        Some l \<Rightarrow> list_all (\<lambda>x. pma_linkid x = pma_linkid l) (active_links s pk role)
      | None \<Rightarrow> active_links s pk role = [])"

text \<open>
  The chain passed to a reconcile call is the current one for the address role of the
  call: it agrees with the store on the pair of its parcel and that role. A call that
  is passed no chain, or a chain without its parcel, creates no ParcelMailingAddress
  link (reading \<open>cog_tables.parcel.parcelkey\<close> on line 74 raises before), and nothing is
  asked of it.
\<close>

definition current_chain :: "db \<Rightarrow> CogTables option \<Rightarrow> nat \<Rightarrow> bool" where
  "current_chain s cog_tables address_role =
     (case cog_tables of
        None \<Rightarrow> True
      | Some t \<Rightarrow>
          (case cog_parcel t of
             None \<Rightarrow> True
           | Some p \<Rightarrow> chain_link_ok s (parcelkey p) address_role t))"

text \<open>
  A sequence of reconcile calls, each with the scraped value, the chain and the role
  pair it is passed. The session goes on to the next call whether the call returned or
  raised.
\<close>

fun reconcile_all ::
  "db \<Rightarrow> (OwnerAndMailing \<times> CogTables option \<times> nat \<times> nat) list \<Rightarrow> db" where
  "reconcile_all s [] = s"
| "reconcile_all s ((county_data, cog_tables, roles) # calls) =
     reconcile_all (fst (sync_owner_and_mailing s county_data cog_tables roles)) calls"

text \<open>
  Every call of a sequence is passed the current chain, in the session it is made in.
\<close>

fun current_chains ::
  "db \<Rightarrow> (OwnerAndMailing \<times> CogTables option \<times> nat \<times> nat) list \<Rightarrow> bool" where
  "current_chains s [] = True"
| "current_chains s ((county_data, cog_tables, roles) # calls) =
     (current_chain s cog_tables (fst roles)
      \<and> current_chains (fst (sync_owner_and_mailing s county_data cog_tables roles)) calls)"

text \<open>
  A sequence of syncs, each with its parcel id and the data scraped for it at that time.
  The session goes on to the next sync whether the sync returned or raised.
\<close>

fun sync_all :: "LinkedObjectRole \<Rightarrow> db \<Rightarrow> (string \<times> GeneralAndMortgage) list \<Rightarrow> db" where
  "sync_all k s [] = s"
| "sync_all k s ((parcel_id, county_data) # calls) =
     sync_all k (fst (sync_county_data k s parcel_id county_data)) calls"

text \<open>
  The two writes on ParcelMailingAddress links: creation and retirement.
\<close>

definition is_parcel_link :: "write_op \<Rightarrow> bool" where
  "is_parcel_link w = (case w of LinkParcelToAddress pk a r \<Rightarrow> True | _ \<Rightarrow> False)"

definition is_parcel_retire :: "write_op \<Rightarrow> bool" where
  "is_parcel_retire w = (case w of DeactivateParcelToAddress i \<Rightarrow> True | _ \<Rightarrow> False)"




section \<open>Example data\<close>

text \<open>
  A store with one parcel and no other row, role constants, and scraped values, for the
  examples that follow.
\<close>

definition example_roles :: LinkedObjectRole where
  "example_roles =
     \<lparr>GENERAL_HUMAN_MAILING_ADDRESS = 1, MORTGAGE_HUMAN_MAILING_ADDRESS = 2,
      general_roles = (1, 11), mortgage_roles = (2, 12)\<rparr>"

definition example_parcel :: Parcel where
  "example_parcel =
     \<lparr>parcelkey = 7, parcelidcnty = ''0123'', muni_municode = 100,
      parcel_deactivatedts = None\<rparr>"

definition example_db :: db where
  "example_db =
     \<lparr>parcels = [example_parcel], parcel_mailing_addresses = [], mailing_addresses = [],
      mailing_streets = [], mailing_city_state_zips = [], human_mailing_addresses = [],
      humans = [], human_parcels = [], now = 1000, writes = []\<rparr>"

definition example_mailing :: Mailing where
  "example_mailing =
     \<lparr>delivery = \<lparr>is_pobox = False, attn = None, number = ''123'', street = ''Main St'',
                  secondary = None\<rparr>,
      last' = \<lparr>city = ''Springfield'', state = ''IL'', zip' = ''62701''\<rparr>\<rparr>"

definition jane :: Owner where
  "jane = \<lparr>name = ''Jane Smith'', is_multi_entity = False\<rparr>"

definition john :: Owner where
  "john = \<lparr>name = ''John Smith'', is_multi_entity = False\<rparr>"

text \<open>
  The rows of the example parcel's address chain, and the store that holds them.
\<close>

definition example_link :: ParcelMailingAddress where
  "example_link =
     \<lparr>pma_linkid = 1, parcel_parcelkey = 7, mailingaddress_addressid = 1,
      linkedobjectrole_lorid = 1, pma_deactivatedts = None\<rparr>"

definition example_address :: MailingAddress where
  "example_address =
     \<lparr>addressid = 1, street_streetid = 1, bldgno = ''123'', attention = None,
      ma_secondary = None, ma_deactivatedts = None\<rparr>"

definition example_street :: MailingStreet where
  "example_street =
     \<lparr>streetid = 1, citystatezip_cszipid = 1, ms_name = ''Main St'', pobox = False,
      ms_deactivatedts = None\<rparr>"

definition example_city_state_zip :: MailingCityStateZip where
  "example_city_state_zip =
     \<lparr>csz_id = 1, csz_city = ''Springfield'', state_abbr = ''IL'', zip_code = ''62701'',
      csz_deactivatedts = None\<rparr>"

definition example_db_address :: db where
  "example_db_address =
     example_db\<lparr>parcel_mailing_addresses := [example_link],
                mailing_addresses := [example_address],
                mailing_streets := [example_street],
                mailing_city_state_zips := [example_city_state_zip]\<rparr>"

text \<open>
  The rows of the example parcel's human chain, the store with both chains, the chain
  that \<open>get_cog_tables\<close> reads from it, and two scraped values with its mailing.
\<close>

definition example_human :: Human where
  "example_human =
     \<lparr>humanid = 1, human_name = ''Jane Smith'', multihuman = False,
      human_deactivatedts = None\<rparr>"

definition example_human_address :: HumanMailingAddress where
  "example_human_address =
     \<lparr>hma_linkid = 1, humanmailing_humanid = Some 1, humanmailing_addressid = Some 1,
      hma_role = 11, hma_deactivatedts = None\<rparr>"

definition example_human_parcel :: HumanParcel where
  "example_human_parcel =
     \<lparr>hp_linkid = 1, hp_humanid = 1, hp_parcelkey = 7, hp_role = 11,
      hp_deactivatedts = None\<rparr>"

definition example_db_jane :: db where
  "example_db_jane =
     example_db_address\<lparr>human_mailing_addresses := [example_human_address],
                        humans := [example_human],
                        human_parcels := [example_human_parcel]\<rparr>"

definition example_chain_jane :: CogTables where
  "example_chain_jane =
     \<lparr>cog_parcel = Some example_parcel, cog_address = Some example_address,
      cog_parcel_address = Some example_link, cog_street = Some example_street,
      cog_city_state_zip = Some example_city_state_zip, cog_human = Some example_human,
      cog_human_address = Some example_human_address, cog_human_parcel = None\<rparr>"

definition john_at_example :: OwnerAndMailing where
  "john_at_example = \<lparr>owner = Some john, mailing = Some example_mailing\<rparr>"

definition jane_at_example :: OwnerAndMailing where
  "jane_at_example = \<lparr>owner = Some jane, mailing = Some example_mailing\<rparr>"

text \<open>
  A municipality of three parcels, the second of which has a page that does not parse,
  and a parcel of another municipality.
\<close>

definition example_pages :: pages where
  "example_pages =
     \<lparr>general_page =
        (\<lambda>parcel_id.
           if parcel_id = ''0002'' then Inl HtmlParsingError
           else Inr ([NavigableString ''Jane Smith ''],
                     [NavigableString ''123 Main St'', NavigableString ''Springfield, IL''])),
      tax_page = (\<lambda>parcel_id. Inr ([NavigableString ''First Bank''], []))\<rparr>"

definition example_db3 :: db where
  "example_db3 =
     example_db\<lparr>parcels :=
       [\<lparr>parcelkey = 1, parcelidcnty = ''0001'', muni_municode = 100, parcel_deactivatedts = None\<rparr>,
        \<lparr>parcelkey = 2, parcelidcnty = ''0002'', muni_municode = 100, parcel_deactivatedts = None\<rparr>,
        \<lparr>parcelkey = 3, parcelidcnty = ''0003'', muni_municode = 100, parcel_deactivatedts = None\<rparr>,
        \<lparr>parcelkey = 4, parcelidcnty = ''0004'', muni_municode = 200, parcel_deactivatedts = None\<rparr>]\<rparr>"

text \<open>
  A second address for the example parcel.
\<close>

definition example_mailing_moved :: Mailing where
  "example_mailing_moved =
     \<lparr>delivery = \<lparr>is_pobox = False, attn = None, number = ''125'', street = ''Main St'',
                  secondary = None\<rparr>,
      last' = \<lparr>city = ''Springfield'', state = ''IL'', zip' = ''62701''\<rparr>\<rparr>"

text \<open>
  A parcel for which the county shows an owner and no mailing address, and the store
  after its first reconciliation.
\<close>

definition jane_no_mailing :: OwnerAndMailing where
  "jane_no_mailing = \<lparr>owner = Some jane, mailing = None\<rparr>"

definition example_chain_parcel_only :: CogTables where
  "example_chain_parcel_only = empty_tables\<lparr>cog_parcel := Some example_parcel\<rparr>"

definition example_db_jane_only :: db where
  "example_db_jane_only =
     example_db\<lparr>human_mailing_addresses :=
                  [\<lparr>hma_linkid = 1, humanmailing_humanid = Some 1,
                    humanmailing_addressid = None, hma_role = 11, hma_deactivatedts = None\<rparr>],
                humans := [example_human],
                human_parcels := [example_human_parcel],
                writes := [EnsureHuman ''Jane Smith'' False, LinkHumanToParcel 7 1 11,
                           LinkHumanToAddress (Some 1) None 11]\<rparr>"

text \<open>
  Two reconcile calls on the store with both chains of the example parcel, each passed
  the current chain: the general data moves to the second address, the mortgage data
  arrives with the same address. And two reconcile calls on the store with the parcel
  alone that are both passed the chain read before the first.
\<close>

definition example_reconciles ::
  "(OwnerAndMailing \<times> CogTables option \<times> nat \<times> nat) list" where
  "example_reconciles =
     [(\<lparr>owner = Some jane, mailing = Some example_mailing_moved\<rparr>,
       Some example_chain_jane, (1, 11)),
      (\<lparr>owner = Some john, mailing = Some example_mailing_moved\<rparr>,
       Some example_chain_parcel_only, (2, 12))]"

definition stale_reconciles ::
  "(OwnerAndMailing \<times> CogTables option \<times> nat \<times> nat) list" where
  "stale_reconciles =
     [(jane_at_example, Some example_chain_parcel_only, (1, 11)),
      (\<lparr>owner = Some jane, mailing = Some example_mailing_moved\<rparr>,
       Some example_chain_parcel_only, (1, 11))]"

section \<open>Properties of the value normalizer\<close>

lemma isspace_space: "isspace (CHR '' '')"
  by (simp add: isspace_def)

lemma clean_whitespace_only_spaces:
  "c \<in> set (clean_whitespace s) \<Longrightarrow> isspace c \<Longrightarrow> c = CHR '' ''"
  by (induction s rule: clean_whitespace.induct) (auto split: if_splits)

lemma single_spaced_Cons:
  "single_spaced (c # r) = ((r = [] \<or> \<not> (isspace c \<and> isspace (hd r))) \<and> single_spaced r)"
  by (cases r) auto

lemma clean_whitespace_Nil: "clean_whitespace s = [] \<longleftrightarrow> s = []"
  by (cases s) auto

lemma filter_dropWhile_not: "filter (\<lambda>c. \<not> P c) (dropWhile P xs) = filter (\<lambda>c. \<not> P c) xs"
  by (induction xs) auto

lemma clean_whitespace_keeps_text:
  "filter (\<lambda>c. \<not> isspace c) (clean_whitespace s) = filter (\<lambda>c. \<not> isspace c) s"
  by (induction s rule: clean_whitespace.induct) (auto simp: filter_dropWhile_not isspace_space)


lemma clean_whitespace_hd:
  "s \<noteq> [] \<Longrightarrow> \<not> isspace (hd s) \<Longrightarrow> \<not> isspace (hd (clean_whitespace s))"
  by (cases s) auto

lemma clean_whitespace_single_spaced: "single_spaced (clean_whitespace s)"
proof (induction s rule: clean_whitespace.induct)
  case 1
  show ?case by simp
next
  case (2 c cs)
  show ?case
  proof (cases "isspace c")
    case True
    let ?r = "dropWhile isspace cs"
    have ih: "single_spaced (clean_whitespace ?r)"
      using 2(1) True by simp
    have hd: "?r \<noteq> [] \<Longrightarrow> \<not> isspace (hd (clean_whitespace ?r))"
      by (rule clean_whitespace_hd) (simp_all add: hd_dropWhile)
    have "single_spaced (CHR '' '' # clean_whitespace ?r)"
      unfolding single_spaced_Cons clean_whitespace_Nil using ih hd by blast
    with True show ?thesis by simp
  next
    case False
    have ih: "single_spaced (clean_whitespace cs)"
      using 2(2) False by simp
    have "single_spaced (c # clean_whitespace cs)"
      unfolding single_spaced_Cons using ih False by blast
    with False show ?thesis by simp
  qed
qed


text \<open>
  Claim C5. \<open>owner_from_raw\<close> keeps the text fragments only; the name is their
  stripped texts joined with \<open>" & "\<close> and every run of white space in it collapsed to one
  space (the name has no two adjacent white-space characters, its only white space is
  the space, and the other characters are those of the joined text in order); the
  multi-entity flag holds exactly when more than one fragment was kept or the collapsing
  changed the joined text. The single fragment \<open>"  Acme   Corp "\<close> gives the name
  \<open>"Acme Corp"\<close> with the flag set.
\<close>

theorem owner_from_raw_normalizes:
  "name (owner_from_raw data) = clean_whitespace (join '' & '' (map strip (clean_tags data)))
   \<and> single_spaced (name (owner_from_raw data))
   \<and> (\<forall>c. c \<in> set (name (owner_from_raw data)) \<and> isspace c \<longrightarrow> c = CHR '' '')
   \<and> filter (\<lambda>c. \<not> isspace c) (name (owner_from_raw data))
       = filter (\<lambda>c. \<not> isspace c) (join '' & '' (map strip (clean_tags data)))
   \<and> (is_multi_entity (owner_from_raw data) \<longleftrightarrow>
        1 < length (clean_tags data)
        \<or> clean_whitespace (join '' & '' (map strip (clean_tags data)))
            \<noteq> join '' & '' (map strip (clean_tags data)))
   \<and> owner_from_raw [NavigableString ''  Acme   Corp '']
       = \<lparr>name = ''Acme Corp'', is_multi_entity = True\<rparr>"
proof -
  let ?dirty = "join '' & '' (map strip (clean_tags data))"
  have ex: "owner_from_raw [NavigableString ''  Acme   Corp '']
       = \<lparr>name = ''Acme Corp'', is_multi_entity = True\<rparr>"
    by code_simp
  have nm: "name (owner_from_raw data) = clean_whitespace ?dirty"
    by (simp add: owner_from_raw_def Let_def)
  have mu: "is_multi_entity (owner_from_raw data) \<longleftrightarrow>
        1 < length (clean_tags data) \<or> clean_whitespace ?dirty \<noteq> ?dirty"
    by (auto simp add: owner_from_raw_def Let_def)
  have ss: "single_spaced (name (owner_from_raw data))"
    unfolding nm by (rule clean_whitespace_single_spaced)
  have sp: "\<forall>c. c \<in> set (name (owner_from_raw data)) \<and> isspace c \<longrightarrow> c = CHR '' ''"
    unfolding nm using clean_whitespace_only_spaces by blast
  have kt: "filter (\<lambda>c. \<not> isspace c) (name (owner_from_raw data))
       = filter (\<lambda>c. \<not> isspace c) ?dirty"
    unfolding nm by (rule clean_whitespace_keeps_text)
  from nm ss sp kt mu ex show ?thesis by (intro conjI)
qed

theorem owner_from_raw_normalizes_witness:
  "owner_from_raw [NavigableString ''Jane Smith  '', Tag ''br'', NavigableString ''John Smith'']
     = \<lparr>name = ''Jane Smith & John Smith'', is_multi_entity = True\<rparr>
   \<and> owner_from_raw [Tag ''b'', NavigableString ''Acme Corp '']
     = \<lparr>name = ''Acme Corp'', is_multi_entity = False\<rparr>
   \<and> owner_from_raw [NavigableString ''  Acme   Corp '']
       = \<lparr>name = ''Acme Corp'', is_multi_entity = True\<rparr>"
proof -
  have a: "owner_from_raw [NavigableString ''Jane Smith  '', Tag ''br'', NavigableString ''John Smith'']
     = \<lparr>name = ''Jane Smith & John Smith'', is_multi_entity = True\<rparr>"
    by code_simp
  have b: "owner_from_raw [Tag ''b'', NavigableString ''Acme Corp '']
     = \<lparr>name = ''Acme Corp'', is_multi_entity = False\<rparr>"
    by code_simp
  from a b owner_from_raw_normalizes [of "[]"] show ?thesis by (intro conjI) (elim conjE, assumption)+
qed

text \<open>
  Claim C6. \<open>mailing_from_raw_tax\<close>: three text fragments give the mailing whose
  delivery line is parsed from the first and whose last line is parsed from the second
  (city and state) and the third (zip), an error of a parser being passed on; no text
  fragment gives \<open>None\<close>; any other count raises (\<open>NotImplementedError\<close> in the source).
\<close>

theorem mailing_from_raw_tax_shapes:
  "(clean_tags data = [a, b, c] \<longrightarrow>
      mailing_from_raw_tax ps data =
        bind_err (mortgage_delivery_address_line ps a) (\<lambda>d.
        bind_err (mortgage_last_line ps b c) (\<lambda>l.
        Inr (Some \<lparr>delivery = d, last' = l\<rparr>))))
   \<and> (clean_tags data = [a, b, c] \<and> mortgage_delivery_address_line ps a = Inr d
        \<and> mortgage_last_line ps b c = Inr l \<longrightarrow>
      mailing_from_raw_tax ps data = Inr (Some \<lparr>delivery = d, last' = l\<rparr>))
   \<and> (clean_tags data = [] \<longrightarrow> mailing_from_raw_tax ps data = Inr None)
   \<and> (length (clean_tags data) \<noteq> 3 \<and> length (clean_tags data) \<noteq> 0 \<longrightarrow>
      mailing_from_raw_tax ps data = Inl NotImplementedError)"
  by (auto simp: mailing_from_raw_tax_def Let_def bind_err_def)

theorem mailing_from_raw_tax_shapes_witness:
  "mailing_from_raw_tax example_parsers
     [NavigableString ''123 Main St'', Tag ''br'', NavigableString ''Springfield, IL'',
      NavigableString ''62701'']
     = Inr (Some \<lparr>delivery = \<lparr>is_pobox = False, attn = None, number = ''123'',
                                street = ''Main St'', secondary = None\<rparr>,
                  last' = \<lparr>city = ''Springfield'', state = ''IL'', zip' = ''62701''\<rparr>\<rparr>)
   \<and> mailing_from_raw_tax example_parsers [Tag ''br''] = Inr None
   \<and> mailing_from_raw_tax example_parsers
       [NavigableString ''123 Main St'', NavigableString ''Springfield, IL 62701'']
     = Inl NotImplementedError"
proof -
  let ?d = "[NavigableString ''123 Main St'', Tag ''br'', NavigableString ''Springfield, IL'',
      NavigableString ''62701'']"
  have d: "mortgage_delivery_address_line example_parsers ''123 Main St''
      = Inr \<lparr>is_pobox = False, attn = None, number = ''123'',
                                street = ''Main St'', secondary = None\<rparr>"
    by code_simp
  have l: "mortgage_last_line example_parsers ''Springfield, IL'' ''62701''
      = Inr \<lparr>city = ''Springfield'', state = ''IL'', zip' = ''62701''\<rparr>"
    by code_simp
  have 1: "clean_tags ?d = [''123 Main St'', ''Springfield, IL'', ''62701'']" by simp
  have 2: "clean_tags [Tag ''br''] = []" by simp
  have 3: "length (clean_tags [NavigableString ''123 Main St'', NavigableString ''Springfield, IL 62701'']) \<noteq> 3
      \<and> length (clean_tags [NavigableString ''123 Main St'', NavigableString ''Springfield, IL 62701'']) \<noteq> 0"
    by simp
  show ?thesis
    using mailing_from_raw_tax_shapes [of ?d "''123 Main St''" "''Springfield, IL''" "''62701''" example_parsers, THEN conjunct2, THEN conjunct1] d l 1
      mailing_from_raw_tax_shapes [of "[Tag ''br'']" _ _ _ example_parsers, THEN conjunct2, THEN conjunct2, THEN conjunct1] 2
      mailing_from_raw_tax_shapes [of "[NavigableString ''123 Main St'', NavigableString ''Springfield, IL 62701'']" _ _ _ example_parsers, THEN conjunct2, THEN conjunct2, THEN conjunct2] 3
    by blast
qed

section \<open>The attention line of the general shape\<close>

lemma re_sub_attn_empty: "re_sub_attn repl [] = []"
  by simp

text \<open>
  Claim C7, evaluated on the code. With three text fragments the substitution of line
  216 runs on the empty string, so the attention field is the empty string whatever the
  first fragment is; the prefix is stripped from nothing.
\<close>

theorem mailing_from_raw_general_attn:
  "clean_tags data = [a, b, c] \<Longrightarrow> general_delivery_address_line ps b = Inr d \<Longrightarrow>
   general_city_state_zip ps c = Inr l \<Longrightarrow>
   mailing_from_raw_general ps data = Inr (Some \<lparr>delivery = d\<lparr>attn := Some []\<rparr>, last' = l\<rparr>)"
  by (simp add: mailing_from_raw_general_def Let_def bind_err_def)

theorem mailing_from_raw_general_attn_witness:
  "mailing_from_raw_general example_parsers
     [NavigableString ''ATTN: JOHN DOE'', NavigableString ''123 MAIN ST'',
      NavigableString ''PITTSBURGH, PA'']
     = Inr (Some \<lparr>delivery = \<lparr>is_pobox = False, attn = Some [], number = ''123'',
                                street = ''MAIN ST'', secondary = None\<rparr>,
                  last' = \<lparr>city = ''PITTSBURGH'', state = ''PA'', zip' = []\<rparr>\<rparr>)
   \<and> re_sub_attn [] ''ATTN: JOHN DOE'' = ''JOHN DOE''
   \<and> re_sub_attn [] ''ATTENTION JOHN DOE'' = ''JOHN DOE''"
proof -
  have d: "general_delivery_address_line example_parsers ''123 MAIN ST''
      = Inr \<lparr>is_pobox = False, attn = None, number = ''123'',
                                street = ''MAIN ST'', secondary = None\<rparr>"
    by code_simp
  have l: "general_city_state_zip example_parsers ''PITTSBURGH, PA''
      = Inr \<lparr>city = ''PITTSBURGH'', state = ''PA'', zip' = []\<rparr>"
    by code_simp
  have r1: "re_sub_attn [] ''ATTN: JOHN DOE'' = ''JOHN DOE''" by code_simp
  have r2: "re_sub_attn [] ''ATTENTION JOHN DOE'' = ''JOHN DOE''" by code_simp
  have 1: "clean_tags [NavigableString ''ATTN: JOHN DOE'', NavigableString ''123 MAIN ST'',
      NavigableString ''PITTSBURGH, PA''] = [''ATTN: JOHN DOE'', ''123 MAIN ST'', ''PITTSBURGH, PA'']"
    by simp
  show ?thesis
    using mailing_from_raw_general_attn [OF 1 d l] r1 r2 by simp
qed

section \<open>Properties of the active-record reader\<close>


lemma scalar_one_Inr: "scalar_one rows = Inr r \<longleftrightarrow> rows = [r]"
  by (auto simp: scalar_one_def split: list.splits)


lemma find_SomeD: "find P xs = Some x \<Longrightarrow> x \<in> set xs \<and> P x"
  by (induction xs) (auto split: if_splits)

lemma read_tables_parcel_address:
  "read_tables s l = Inr t \<Longrightarrow> cog_parcel_address t = Some l"
  by (auto simp: read_tables_def bind_err_def Let_def split: sum.splits error.splits prod.splits)

lemma read_all_parcel_address:
  "read_all s ls = Inr ts \<Longrightarrow> map cog_parcel_address ts = map Some ls"
  by (induction ls arbitrary: ts)
     (auto simp: bind_err_def split: sum.splits dest: read_tables_parcel_address)












section \<open>Reconciliation: what one call writes\<close>

lemmas deactivate_defs =
  deactivate_parcel_to_address_def deactivate_human_to_address_def deactivate_address_def
  deactivate_human_def deactivate_human_to_parcel_def

lemmas link_defs =
  link_parcel_to_address_def link_human_to_parcel_def link_human_to_address_def

lemma ensure_human_frame:
  assumes "ensure_human s nm multi = (s', h)"
  shows "parcels s' = parcels s"
    and "parcel_mailing_addresses s' = parcel_mailing_addresses s"
    and "mailing_addresses s' = mailing_addresses s"
    and "mailing_streets s' = mailing_streets s"
    and "mailing_city_state_zips s' = mailing_city_state_zips s"
    and "human_mailing_addresses s' = human_mailing_addresses s"
    and "human_parcels s' = human_parcels s"
    and "now s' = now s"
    and "writes s' = writes s @ [EnsureHuman nm multi]"
  using assms by (auto simp: ensure_human_def Let_def split: option.splits)

lemma retire_human_side_frame:
  shows "parcels (retire_human_side s ct) = parcels s"
    and "parcel_mailing_addresses (retire_human_side s ct) = parcel_mailing_addresses s"
    and "mailing_addresses (retire_human_side s ct) = mailing_addresses s"
    and "mailing_streets (retire_human_side s ct) = mailing_streets s"
    and "mailing_city_state_zips (retire_human_side s ct) = mailing_city_state_zips s"
    and "human_parcels (retire_human_side s ct) = human_parcels s"
    and "now (retire_human_side s ct) = now s"
  by (auto simp: retire_human_side_def deactivate_defs Let_def split: option.splits)

lemma retire_human_side_writes:
  "\<exists>ws. writes (retire_human_side s ct) = writes s @ ws
        \<and> (\<forall>w \<in> set ws. \<not> address_side_write w)
        \<and> (no_human_parcel ct \<longrightarrow> (\<forall>w \<in> set ws. \<not> retires_human_parcel w))"
  by (auto simp: retire_human_side_def deactivate_defs Let_def no_human_parcel_def
        retires_human_parcel_def split: option.splits)

lemma ensure_city_state_zip_frame:
  assumes "ensure_city_state_zip s c st z = (s', r)"
  shows "parcels s' = parcels s"
    and "parcel_mailing_addresses s' = parcel_mailing_addresses s"
    and "mailing_addresses s' = mailing_addresses s"
    and "mailing_streets s' = mailing_streets s"
    and "human_mailing_addresses s' = human_mailing_addresses s"
    and "humans s' = humans s"
    and "human_parcels s' = human_parcels s"
    and "now s' = now s"
    and "writes s' = writes s @ [EnsureCityStateZip c st z]"
  using assms by (auto simp: ensure_city_state_zip_def Let_def split: option.splits)

lemma ensure_street_frame:
  assumes "ensure_street s i n p = (s', r)"
  shows "parcels s' = parcels s"
    and "parcel_mailing_addresses s' = parcel_mailing_addresses s"
    and "mailing_addresses s' = mailing_addresses s"
    and "mailing_city_state_zips s' = mailing_city_state_zips s"
    and "human_mailing_addresses s' = human_mailing_addresses s"
    and "humans s' = humans s"
    and "human_parcels s' = human_parcels s"
    and "now s' = now s"
    and "writes s' = writes s @ [EnsureStreet i n p]"
  using assms by (auto simp: ensure_street_def Let_def split: option.splits)

lemma ensure_address_frame:
  assumes "ensure_address s i n a b = (s', r)"
  shows "parcels s' = parcels s"
    and "parcel_mailing_addresses s' = parcel_mailing_addresses s"
    and "mailing_streets s' = mailing_streets s"
    and "mailing_city_state_zips s' = mailing_city_state_zips s"
    and "human_mailing_addresses s' = human_mailing_addresses s"
    and "humans s' = humans s"
    and "human_parcels s' = human_parcels s"
    and "now s' = now s"
    and "writes s' = writes s @ [EnsureAddress i n a b]"
  using assms by (auto simp: ensure_address_def Let_def split: option.splits)

lemma retire_address_side_frame:
  shows "parcels (retire_address_side s ct) = parcels s"
    and "mailing_streets (retire_address_side s ct) = mailing_streets s"
    and "mailing_city_state_zips (retire_address_side s ct) = mailing_city_state_zips s"
    and "humans (retire_address_side s ct) = humans s"
    and "human_parcels (retire_address_side s ct) = human_parcels s"
    and "now (retire_address_side s ct) = now s"
  by (auto simp: retire_address_side_def deactivate_defs Let_def split: option.splits)

lemma retire_address_side_writes:
  "\<exists>ws. writes (retire_address_side s ct) = writes s @ ws
        \<and> (\<forall>w \<in> set ws. \<not> retires_human_parcel w)"
  by (auto simp: retire_address_side_def deactivate_defs Let_def retires_human_parcel_def
        split: option.splits)

lemma sync_address_cases [consumes 1, case_names same no_mailing no_parcel linked]:
  assumes "sync_address s cd ct ar = (s', res)"
  obtains
    "mailing cd = mailing (cog_tables_to_owner_and_mailing ct)" "s' = s"
      "res = Inr (case ct of None \<Rightarrow> None | Some t \<Rightarrow> map_option addressid (cog_address t), mailing cd)"
  | "mailing cd \<noteq> mailing (cog_tables_to_owner_and_mailing ct)" "mailing cd = None"
      "s' = retire_address_side s ct" "res = Inl AttributeError"
  | m s2 c s3 st a where
      "mailing cd \<noteq> mailing (cog_tables_to_owner_and_mailing ct)" "mailing cd = Some m"
      "ensure_city_state_zip (retire_address_side s ct) (city (last' m)) (state (last' m))
         (zip' (last' m)) = (s2, c)"
      "ensure_street s2 (csz_id c) (street (delivery m)) (is_pobox (delivery m)) = (s3, st)"
      "ensure_address s3 (streetid st) (number (delivery m)) (attn (delivery m))
         (secondary (delivery m)) = (s', a)"
      "Option.bind ct cog_parcel = None" "res = Inl AttributeError"
  | m s2 c s3 st s4 a p where
      "mailing cd \<noteq> mailing (cog_tables_to_owner_and_mailing ct)" "mailing cd = Some m"
      "ensure_city_state_zip (retire_address_side s ct) (city (last' m)) (state (last' m))
         (zip' (last' m)) = (s2, c)"
      "ensure_street s2 (csz_id c) (street (delivery m)) (is_pobox (delivery m)) = (s3, st)"
      "ensure_address s3 (streetid st) (number (delivery m)) (attn (delivery m))
         (secondary (delivery m)) = (s4, a)"
      "Option.bind ct cog_parcel = Some p"
      "s' = link_parcel_to_address s4 (parcelkey p) (addressid a) ar"
      "res = Inr (Some (addressid a),
                  Some \<lparr>delivery = \<lparr>is_pobox = pobox st, attn = attention a, number = bldgno a,
                                      street = ms_name st, secondary = ma_secondary a\<rparr>,
                        last' = \<lparr>city = csz_city c, state = state_abbr c, zip' = zip_code c\<rparr>\<rparr>)"
  using assms unfolding sync_address_def Let_def
  by (auto split: if_splits option.splits prod.splits)

lemma sync_human_cases [consumes 1, case_names same no_owner no_parcel linked]:
  assumes "sync_human s cd ct er = (s', res)"
  obtains
    "owner cd = owner (cog_tables_to_owner_and_mailing ct)" "s' = s"
      "res = Inr (case ct of None \<Rightarrow> None | Some t \<Rightarrow> map_option humanid (cog_human t), owner cd)"
  | "owner cd \<noteq> owner (cog_tables_to_owner_and_mailing ct)" "owner cd = None"
      "s' = retire_human_side s ct" "res = Inl AttributeError"
  | ow h where
      "owner cd \<noteq> owner (cog_tables_to_owner_and_mailing ct)" "owner cd = Some ow"
      "ensure_human (retire_human_side s ct) (name ow) (is_multi_entity ow) = (s', h)"
      "Option.bind ct cog_parcel = None" "res = Inl AttributeError"
  | ow s2 h p where
      "owner cd \<noteq> owner (cog_tables_to_owner_and_mailing ct)" "owner cd = Some ow"
      "ensure_human (retire_human_side s ct) (name ow) (is_multi_entity ow) = (s2, h)"
      "Option.bind ct cog_parcel = Some p"
      "s' = link_human_to_parcel s2 (parcelkey p) (humanid h) er"
      "res = Inr (Some (humanid h),
                  Some \<lparr>name = human_name h, is_multi_entity = multihuman h\<rparr>)"
  using assms unfolding sync_human_def Let_def
  by (auto split: if_splits option.splits prod.splits)

lemma sync_human_frame:
  assumes "sync_human s cd ct er = (s', res)"
  shows "parcels s' = parcels s"
    and "parcel_mailing_addresses s' = parcel_mailing_addresses s"
    and "mailing_addresses s' = mailing_addresses s"
    and "mailing_streets s' = mailing_streets s"
    and "mailing_city_state_zips s' = mailing_city_state_zips s"
    and "now s' = now s"
    and "\<exists>new. human_parcels s' = human_parcels s @ new"
  using assms
  by (cases rule: sync_human_cases;
      simp add: retire_human_side_frame link_defs ensure_human_frame)+

lemma sync_human_writes:
  assumes "sync_human s cd ct er = (s', res)"
  shows "\<exists>ws. writes s' = writes s @ ws \<and> (\<forall>w \<in> set ws. \<not> address_side_write w)
        \<and> (no_human_parcel ct \<longrightarrow> (\<forall>w \<in> set ws. \<not> retires_human_parcel w))"
proof -
  obtain ws where ws: "writes (retire_human_side s ct) = writes s @ ws"
      "\<forall>w \<in> set ws. \<not> address_side_write w"
      "no_human_parcel ct \<longrightarrow> (\<forall>w \<in> set ws. \<not> retires_human_parcel w)"
    using retire_human_side_writes [of s ct] by (elim exE conjE)
  from assms show ?thesis
  proof (cases rule: sync_human_cases)
    case same
    then show ?thesis by simp
  next
    case no_owner
    with ws show ?thesis by (intro exI [of _ ws]) simp
  next
    case (no_parcel ow h)
    with ws ensure_human_frame(9) [OF no_parcel(3)] show ?thesis
      by (intro exI [of _ "ws @ [EnsureHuman (name ow) (is_multi_entity ow)]"])
         (simp add: retires_human_parcel_def)
  next
    case (linked ow s2 h p)
    with ws ensure_human_frame(9) [OF linked(3)] show ?thesis
      by (intro exI [of _ "ws @ [EnsureHuman (name ow) (is_multi_entity ow),
          LinkHumanToParcel (parcelkey p) (humanid h) er]"])
         (simp add: retires_human_parcel_def link_defs)
  qed
qed

lemma sync_address_human_parcels:
  assumes "sync_address s cd ct ar = (s', res)"
  shows "human_parcels s' = human_parcels s"
  using assms
  by (cases rule: sync_address_cases)
     (simp_all add: retire_address_side_frame link_defs ensure_city_state_zip_frame
        ensure_street_frame ensure_address_frame)

lemma sync_address_writes:
  assumes "sync_address s cd ct ar = (s', res)"
  shows "\<exists>ws. writes s' = writes s @ ws \<and> (\<forall>w \<in> set ws. \<not> retires_human_parcel w)"
proof -
  obtain ws where ws: "writes (retire_address_side s ct) = writes s @ ws"
      "\<forall>w \<in> set ws. \<not> retires_human_parcel w"
    using retire_address_side_writes [of s ct] by (elim exE conjE)
  from assms show ?thesis
  proof (cases rule: sync_address_cases)
    case same
    then show ?thesis by simp
  next
    case no_mailing
    with ws show ?thesis by (intro exI [of _ ws]) simp
  next
    case (no_parcel m s2 c s3 st a)
    let ?e = "[EnsureCityStateZip (city (last' m)) (state (last' m)) (zip' (last' m)),
               EnsureStreet (csz_id c) (street (delivery m)) (is_pobox (delivery m)),
               EnsureAddress (streetid st) (number (delivery m)) (attn (delivery m)) (secondary (delivery m))]"
    have "writes s' = writes s @ ws @ ?e"
      using ensure_city_state_zip_frame(9) [OF no_parcel(3)] ensure_street_frame(9) [OF no_parcel(4)]
        ensure_address_frame(9) [OF no_parcel(5)] ws(1) by simp
    with ws show ?thesis
      by (intro exI [of _ "ws @ ?e"]) (simp add: retires_human_parcel_def)
  next
    case (linked m s2 c s3 st s4 a p)
    let ?e = "[EnsureCityStateZip (city (last' m)) (state (last' m)) (zip' (last' m)),
               EnsureStreet (csz_id c) (street (delivery m)) (is_pobox (delivery m)),
               EnsureAddress (streetid st) (number (delivery m)) (attn (delivery m)) (secondary (delivery m)),
               LinkParcelToAddress (parcelkey p) (addressid a) ar]"
    have "writes s' = writes s @ ws @ ?e"
      using ensure_city_state_zip_frame(9) [OF linked(3)] ensure_street_frame(9) [OF linked(4)]
        ensure_address_frame(9) [OF linked(5)] ws(1) linked(7) by (simp add: link_defs)
    with ws show ?thesis
      by (intro exI [of _ "ws @ ?e"]) (simp add: retires_human_parcel_def)
  qed
qed

lemma read_tables_human_parcel: "read_tables s l = Inr t \<Longrightarrow> cog_human_parcel t = None"
  by (auto simp: read_tables_def bind_err_def Let_def split: sum.splits error.splits prod.splits)

lemma read_all_human_parcel:
  "read_all s ls = Inr ts \<Longrightarrow> t \<in> set ts \<Longrightarrow> cog_human_parcel t = None"
  by (induction ls arbitrary: ts)
     (auto simp: bind_err_def split: sum.splits dest: read_tables_human_parcel)

lemma match_number_mem: "match_number n ts = Inr (Some t) \<Longrightarrow> t \<in> set ts"
  by (induction ts) (auto split: option.splits if_splits)

lemma get_cog_tables_human_parcel:
  assumes "get_cog_tables k s pid = Inr c"
  shows "cog_human_parcel (cog_general c) = None \<and> cog_human_parcel (cog_mortgage c) = None"
proof -
  from assms obtain p ts g m where
    ts: "read_all s (select_parcel_mailing_addresses s (parcelkey p)) = Inr ts"
    and g: "match_number (GENERAL_HUMAN_MAILING_ADDRESS k) ts = Inr g"
    and m: "match_number (MORTGAGE_HUMAN_MAILING_ADDRESS k) ts = Inr m"
    and c: "c = \<lparr>cog_general = (case g of Some t \<Rightarrow> t | None \<Rightarrow> empty_tables)\<lparr>cog_parcel := Some p\<rparr>,
                 cog_mortgage = (case m of Some t \<Rightarrow> t | None \<Rightarrow> empty_tables)\<lparr>cog_parcel := Some p\<rparr>\<rparr>"
    by (auto simp: get_cog_tables_def bind_err_def Let_def split: sum.splits)
  have "cog_human_parcel (case g of Some t \<Rightarrow> t | None \<Rightarrow> empty_tables) = None"
    using g read_all_human_parcel [OF ts] match_number_mem
    by (cases g) (auto simp: empty_tables_def)
  moreover have "cog_human_parcel (case m of Some t \<Rightarrow> t | None \<Rightarrow> empty_tables) = None"
    using m read_all_human_parcel [OF ts] match_number_mem
    by (cases m) (auto simp: empty_tables_def)
  ultimately show ?thesis by (simp add: c)
qed

lemma sync_owner_and_mailing_cases [consumes 1, case_names address_error human_error ok]:
  assumes "sync_owner_and_mailing s cd ct (ar, er) = (s', res)"
  obtains
    e where "sync_address s cd ct ar = (s', Inl e)" "res = Inl e"
  | s1 aid ra e where "sync_address s cd ct ar = (s1, Inr (aid, ra))"
      "sync_human s1 cd ct er = (s', Inl e)" "res = Inl e"
  | s1 aid ra s2 hid rh where "sync_address s cd ct ar = (s1, Inr (aid, ra))"
      "sync_human s1 cd ct er = (s2, Inr (hid, rh))"
      "s' = (if owner cd \<noteq> owner (cog_tables_to_owner_and_mailing ct)
                \<or> mailing cd \<noteq> mailing (cog_tables_to_owner_and_mailing ct)
             then link_human_to_address s2 hid aid er else s2)"
      "res = Inr \<lparr>owner = rh, mailing = ra\<rparr>"
  using assms unfolding sync_owner_and_mailing_def Let_def
  by (auto split: prod.splits sum.splits if_splits)

text \<open>
  Claim C2. When the scraped mailing equals the projection of the chain's mailing, both
  null included, the address side of the call (lines 55 to 89) writes nothing, whether
  the call returns or raises: the MailingAddress, MailingStreet and MailingCityStateZip
  rows and the ParcelMailingAddress links, which are the link rows of the address
  chain, are as they were, no retirement, upsert or link of the address side is logged,
  and the mailing returned is the scraped one, equal to the existing canonical mailing.
  What the call still writes belongs to the human side and the cross link of lines 91 to
  114, and when the owner is equal as well the call writes nothing at all and returns
  the scraped value.
\<close>

theorem same_mailing_no_address_write:
  assumes "mailing county_data = mailing (cog_tables_to_owner_and_mailing cog_tables)"
    and "sync_owner_and_mailing s county_data cog_tables roles = (s', res)"
  shows "parcel_mailing_addresses s' = parcel_mailing_addresses s
     \<and> mailing_addresses s' = mailing_addresses s
     \<and> mailing_streets s' = mailing_streets s
     \<and> mailing_city_state_zips s' = mailing_city_state_zips s
     \<and> (\<exists>ws. writes s' = writes s @ ws \<and> (\<forall>w \<in> set ws. \<not> address_side_write w))
     \<and> (\<forall>r. res = Inr r \<longrightarrow> mailing r = mailing county_data
              \<and> mailing r = mailing (cog_tables_to_owner_and_mailing cog_tables))
     \<and> (owner county_data = owner (cog_tables_to_owner_and_mailing cog_tables) \<longrightarrow>
          s' = s \<and> res = Inr county_data)"
proof -
  obtain ar er where roles: "roles = (ar, er)" by (cases roles)
  have sa: "sync_address s county_data cog_tables ar =
      (s, Inr (case cog_tables of None \<Rightarrow> None | Some t \<Rightarrow> map_option addressid (cog_address t),
               mailing county_data))"
    using assms(1) by (simp add: sync_address_def Let_def)
  from assms(2) [unfolded roles] show ?thesis
  proof (cases rule: sync_owner_and_mailing_cases)
    case (address_error e)
    with sa show ?thesis by simp
  next
    case (human_error s1 aid ra e)
    with sa have s1: "s1 = s" by simp
    have h: "sync_human s county_data cog_tables er = (s', Inl e)"
      using human_error(2) s1 by simp
    have "owner county_data \<noteq> owner (cog_tables_to_owner_and_mailing cog_tables)"
      using h by (cases rule: sync_human_cases) simp_all
    moreover obtain ws where "writes s' = writes s @ ws" "\<forall>w \<in> set ws. \<not> address_side_write w"
      using sync_human_writes [OF h] by (elim exE conjE)
    ultimately show ?thesis
      using sync_human_frame [OF h] human_error(3) by auto
  next
    case (ok s1 aid ra s2 hid rh)
    with sa have s1: "s1 = s" and ra: "ra = mailing county_data" by simp_all
    have h: "sync_human s county_data cog_tables er = (s2, Inr (hid, rh))"
      using ok(2) s1 by simp
    obtain ws where ws: "writes s2 = writes s @ ws" "\<forall>w \<in> set ws. \<not> address_side_write w"
      using sync_human_writes [OF h] by (elim exE conjE)
    show ?thesis
    proof (cases "owner county_data = owner (cog_tables_to_owner_and_mailing cog_tables)")
      case True
      with h have "s2 = s" "rh = owner county_data"
        by (simp_all add: sync_human_def Let_def)
      with True ok(3,4) assms(1) ra show ?thesis by simp
    next
      case False
      with ok(3) have s': "s' = link_human_to_address s2 hid aid er" by simp
      have "writes s' = writes s @ (ws @ [LinkHumanToAddress hid aid er])"
        using ws(1) by (simp add: s' link_defs)
      moreover have "\<forall>w \<in> set (ws @ [LinkHumanToAddress hid aid er]). \<not> address_side_write w"
        using ws(2) by simp
      ultimately have "\<exists>ws. writes s' = writes s @ ws \<and> (\<forall>w \<in> set ws. \<not> address_side_write w)"
        by blast
      then show ?thesis
        using sync_human_frame [OF h] False ok(4) ra assms(1)
        by (simp add: s' link_defs)
    qed
  qed
qed

text \<open>
  Claim C4, evaluated on the code. A chain read by \<open>get_cog_tables\<close> never has a
  HumanParcel link (lines 248 to 255 do not set the field), so reconciling with it logs
  no retirement of a HumanParcel link and leaves every HumanParcel row as it was: the
  link created for the previous owner stays active beside the new one.
\<close>

theorem human_parcel_link_not_retired:
  assumes "get_cog_tables k s pid = Inr c"
    and "t = cog_general c \<or> t = cog_mortgage c"
    and "sync_owner_and_mailing s county_data (Some t) roles = (s', res)"
  shows "cog_human_parcel t = None
     \<and> (\<exists>new. human_parcels s' = human_parcels s @ new)
     \<and> (\<exists>ws. writes s' = writes s @ ws \<and> (\<forall>w \<in> set ws. \<not> retires_human_parcel w))"
proof -
  obtain ar er where roles: "roles = (ar, er)" by (cases roles)
  have t: "cog_human_parcel t = None"
    using get_cog_tables_human_parcel [OF assms(1)] assms(2) by auto
  then have nhp: "no_human_parcel (Some t)" by (simp add: no_human_parcel_def)
  have step: "\<exists>new. human_parcels s2 = human_parcels s @ new"
      "\<exists>ws. writes s2 = writes s @ ws \<and> (\<forall>w \<in> set ws. \<not> retires_human_parcel w)"
    if a: "sync_address s county_data (Some t) ar = (s1, ra)"
      and h: "sync_human s1 county_data (Some t) er = (s2, rh)" for s1 ra s2 rh
  proof -
    obtain ws1 where ws1: "writes s1 = writes s @ ws1" "\<forall>w \<in> set ws1. \<not> retires_human_parcel w"
      using sync_address_writes [OF a] by (elim exE conjE)
    obtain ws2 where ws2: "writes s2 = writes s1 @ ws2" "\<forall>w \<in> set ws2. \<not> retires_human_parcel w"
      using sync_human_writes [OF h] nhp by (elim exE conjE) simp
    show "\<exists>new. human_parcels s2 = human_parcels s @ new"
      using sync_human_frame(7) [OF h] sync_address_human_parcels [OF a] by simp
    have "writes s2 = writes s @ (ws1 @ ws2)" using ws1 ws2 by simp
    moreover have "\<forall>w \<in> set (ws1 @ ws2). \<not> retires_human_parcel w" using ws1 ws2 by auto
    ultimately show "\<exists>ws. writes s2 = writes s @ ws \<and> (\<forall>w \<in> set ws. \<not> retires_human_parcel w)"
      by blast
  qed
  from assms(3) [unfolded roles]
  have "(\<exists>new. human_parcels s' = human_parcels s @ new)
     \<and> (\<exists>ws. writes s' = writes s @ ws \<and> (\<forall>w \<in> set ws. \<not> retires_human_parcel w))"
  proof (cases rule: sync_owner_and_mailing_cases)
    case (address_error e)
    then show ?thesis
      using sync_address_writes [OF address_error(1)] sync_address_human_parcels [OF address_error(1)]
      by simp
  next
    case (human_error s1 aid ra e)
    then show ?thesis using step by blast
  next
    case (ok s1 aid ra s2 hid rh)
    obtain new ws where n: "human_parcels s2 = human_parcels s @ new"
      and ws: "writes s2 = writes s @ ws" "\<forall>w \<in> set ws. \<not> retires_human_parcel w"
      using step [OF ok(1,2)] by (elim exE conjE)
    show ?thesis
    proof (cases "s' = s2")
      case True
      with n ws show ?thesis by blast
    next
      case False
      with ok(3) have s': "s' = link_human_to_address s2 hid aid er" by (simp split: if_splits)
      have "writes s' = writes s @ (ws @ [LinkHumanToAddress hid aid er])"
        using ws(1) by (simp add: s' link_defs)
      moreover have "\<forall>w \<in> set (ws @ [LinkHumanToAddress hid aid er]). \<not> retires_human_parcel w"
        using ws(2) by (simp add: retires_human_parcel_def)
      moreover have "human_parcels s' = human_parcels s @ new"
        using n by (simp add: s' link_defs)
      ultimately show ?thesis by blast
    qed
  qed
  with t show ?thesis by simp
qed

lemma example_chain_jane_read:
  "get_cog_tables example_roles example_db_jane ''0123'' =
     Inr \<lparr>cog_general = example_chain_jane,
          cog_mortgage = empty_tables\<lparr>cog_parcel := Some example_parcel\<rparr>\<rparr>"
  by code_simp

theorem same_mailing_no_address_write_witness:
  "mailing jane_no_mailing = mailing (cog_tables_to_owner_and_mailing (Some example_chain_parcel_only))
   \<and> parcel_mailing_addresses (fst (sync_owner_and_mailing example_db jane_no_mailing
        (Some example_chain_parcel_only) (general_roles example_roles))) = []
   \<and> mailing_addresses (fst (sync_owner_and_mailing example_db jane_no_mailing
        (Some example_chain_parcel_only) (general_roles example_roles))) = []
   \<and> snd (sync_owner_and_mailing example_db jane_no_mailing
        (Some example_chain_parcel_only) (general_roles example_roles)) = Inr jane_no_mailing
   \<and> mailing john_at_example = mailing (cog_tables_to_owner_and_mailing (Some example_chain_jane))
   \<and> parcel_mailing_addresses (fst (sync_owner_and_mailing example_db_jane john_at_example
        (Some example_chain_jane) (general_roles example_roles))) = [example_link]
   \<and> mailing_addresses (fst (sync_owner_and_mailing example_db_jane john_at_example
        (Some example_chain_jane) (general_roles example_roles))) = [example_address]
   \<and> writes (fst (sync_owner_and_mailing example_db_jane john_at_example
        (Some example_chain_jane) (general_roles example_roles))) =
       [DeactivateHumanToAddress 1, DeactivateHuman 1, EnsureHuman ''John Smith'' False,
        LinkHumanToParcel 7 2 11, LinkHumanToAddress (Some 2) (Some 1) 11]
   \<and> sync_owner_and_mailing example_db_jane jane_at_example
        (Some example_chain_jane) (general_roles example_roles) = (example_db_jane, Inr jane_at_example)"
proof -
  let ?N = "sync_owner_and_mailing example_db jane_no_mailing
        (Some example_chain_parcel_only) (general_roles example_roles)"
  let ?R = "sync_owner_and_mailing example_db_jane john_at_example
        (Some example_chain_jane) (general_roles example_roles)"
  let ?Q = "sync_owner_and_mailing example_db_jane jane_at_example
        (Some example_chain_jane) (general_roles example_roles)"
  have m0: "mailing jane_no_mailing
      = mailing (cog_tables_to_owner_and_mailing (Some example_chain_parcel_only))"
    by code_simp
  have m1: "mailing john_at_example = mailing (cog_tables_to_owner_and_mailing (Some example_chain_jane))"
    by code_simp
  have m2: "mailing jane_at_example = mailing (cog_tables_to_owner_and_mailing (Some example_chain_jane))"
    by code_simp
  have o2: "owner jane_at_example = owner (cog_tables_to_owner_and_mailing (Some example_chain_jane))"
    by code_simp
  have t0: "parcel_mailing_addresses example_db = []" "mailing_addresses example_db = []"
    by (simp_all add: example_db_def)
  have t1: "parcel_mailing_addresses example_db_jane = [example_link]" by code_simp
  have t2: "mailing_addresses example_db_jane = [example_address]" by code_simp
  have n: "?N = (fst ?N, snd ?N)" by simp
  have r: "?R = (fst ?R, snd ?R)" by simp
  have q: "?Q = (fst ?Q, snd ?Q)" by simp
  from same_mailing_no_address_write [OF m0 n] t0
  have a0: "parcel_mailing_addresses (fst ?N) = []"
    and b0: "mailing_addresses (fst ?N) = []" by simp_all
  have c0: "snd ?N = Inr jane_no_mailing" by code_simp
  from same_mailing_no_address_write [OF m1 r] t1 t2
  have a: "parcel_mailing_addresses (fst ?R) = [example_link]"
    and b: "mailing_addresses (fst ?R) = [example_address]" by simp_all
  have w: "writes (fst ?R) =
       [DeactivateHumanToAddress 1, DeactivateHuman 1, EnsureHuman ''John Smith'' False,
        LinkHumanToParcel 7 2 11, LinkHumanToAddress (Some 2) (Some 1) 11]"
    by code_simp
  from same_mailing_no_address_write [OF m2 q] o2
  have "fst ?Q = example_db_jane \<and> snd ?Q = Inr jane_at_example" by blast
  then have c: "?Q = (example_db_jane, Inr jane_at_example)" by (metis q)
  from m0 a0 b0 c0 m1 a b w c show ?thesis by (intro conjI)
qed

theorem human_parcel_link_not_retired_witness:
  "cog_human_parcel example_chain_jane = None
   \<and> human_parcels example_db_jane = [example_human_parcel]
   \<and> human_parcels (fst (sync_owner_and_mailing example_db_jane john_at_example
        (Some example_chain_jane) (general_roles example_roles))) =
       [example_human_parcel,
        \<lparr>hp_linkid = 2, hp_humanid = 2, hp_parcelkey = 7, hp_role = 11,
         hp_deactivatedts = None\<rparr>]"
proof -
  let ?R = "sync_owner_and_mailing example_db_jane john_at_example
        (Some example_chain_jane) (general_roles example_roles)"
  have g: "example_chain_jane = cog_general \<lparr>cog_general = example_chain_jane,
          cog_mortgage = empty_tables\<lparr>cog_parcel := Some example_parcel\<rparr>\<rparr>
        \<or> example_chain_jane = cog_mortgage \<lparr>cog_general = example_chain_jane,
          cog_mortgage = empty_tables\<lparr>cog_parcel := Some example_parcel\<rparr>\<rparr>"
    by simp
  have r: "?R = (fst ?R, snd ?R)" by simp
  have a: "cog_human_parcel example_chain_jane = None"
    using human_parcel_link_not_retired [OF example_chain_jane_read g r] by blast
  have b: "human_parcels example_db_jane = [example_human_parcel]" by code_simp
  have c: "human_parcels (fst ?R) =
       [example_human_parcel,
        \<lparr>hp_linkid = 2, hp_humanid = 2, hp_parcelkey = 7, hp_role = 11,
         hp_deactivatedts = None\<rparr>]"
    by code_simp
  from a b c show ?thesis by (intro conjI)
qed

section \<open>The cross link\<close>

lemma sync_human_changed:
  assumes "owner cd \<noteq> owner (cog_tables_to_owner_and_mailing ct)" "owner cd = Some ow"
    and "ensure_human (retire_human_side s ct) (name ow) (is_multi_entity ow) = (s2, h)"
    and "Option.bind ct cog_parcel = Some p"
  shows "sync_human s cd ct er =
      (link_human_to_parcel s2 (parcelkey p) (humanid h) er,
       Inr (Some (humanid h), Some \<lparr>name = human_name h, is_multi_entity = multihuman h\<rparr>))"
proof -
  obtain s' res where r: "sync_human s cd ct er = (s', res)" by (cases "sync_human s cd ct er")
  from r show ?thesis
    using assms by (cases rule: sync_human_cases) (simp_all add: r)
qed

lemma sync_human_same:
  assumes "owner cd = owner (cog_tables_to_owner_and_mailing ct)"
  shows "sync_human s cd ct er =
      (s, Inr (case ct of None \<Rightarrow> None | Some t \<Rightarrow> map_option humanid (cog_human t), owner cd))"
  using assms by (simp add: sync_human_def Let_def)

lemma sync_address_changed:
  assumes "mailing cd \<noteq> mailing (cog_tables_to_owner_and_mailing ct)" "mailing cd = Some m"
    and "ensure_city_state_zip (retire_address_side s ct) (city (last' m)) (state (last' m))
         (zip' (last' m)) = (s2, c)"
    and "ensure_street s2 (csz_id c) (street (delivery m)) (is_pobox (delivery m)) = (s3, st)"
    and "ensure_address s3 (streetid st) (number (delivery m)) (attn (delivery m))
         (secondary (delivery m)) = (s4, a)"
    and "Option.bind ct cog_parcel = Some p"
  shows "sync_address s cd ct ar =
      (link_parcel_to_address s4 (parcelkey p) (addressid a) ar,
       Inr (Some (addressid a),
            Some \<lparr>delivery = \<lparr>is_pobox = pobox st, attn = attention a, number = bldgno a,
                                street = ms_name st, secondary = ma_secondary a\<rparr>,
                  last' = \<lparr>city = csz_city c, state = state_abbr c, zip' = zip_code c\<rparr>\<rparr>))"
proof -
  obtain s' res where r: "sync_address s cd ct ar = (s', res)" by (cases "sync_address s cd ct ar")
  from r show ?thesis
    using assms by (cases rule: sync_address_cases) (simp_all add: r)
qed

lemma sync_address_same:
  assumes "mailing cd = mailing (cog_tables_to_owner_and_mailing ct)"
  shows "sync_address s cd ct ar =
      (s, Inr (case ct of None \<Rightarrow> None | Some t \<Rightarrow> map_option addressid (cog_address t), mailing cd))"
  using assms by (simp add: sync_address_def Let_def)

lemma sync_owner_and_mailing_ok:
  assumes "sync_address s cd ct ar = (s1, Inr (aid, ra))"
    and "sync_human s1 cd ct er = (s2, Inr (hid, rh))"
  shows "sync_owner_and_mailing s cd ct (ar, er) =
      (if owner cd \<noteq> owner (cog_tables_to_owner_and_mailing ct)
                \<or> mailing cd \<noteq> mailing (cog_tables_to_owner_and_mailing ct)
       then link_human_to_address s2 hid aid er else s2,
       Inr \<lparr>owner = rh, mailing = ra\<rparr>)"
  using assms by (simp add: sync_owner_and_mailing_def Let_def)

text \<open>
  Claim C10. With a chain (and its parcel) present: when only the owner changes and the
  chain has no MailingAddress (the scraped mailing being null as well), the call still
  creates a HumanMailingAddress link, the last write of the call, and the address key
  passed to it is null; symmetrically, when only the mailing changes and the chain has
  no Human (the scraped owner being null), the link is created with a null human key.
\<close>

theorem cross_link_with_null_key:
  "(cog_parcel t = Some p \<and> cog_address t = None \<and> mailing county_data = None
      \<and> owner county_data = Some ow
      \<and> owner county_data \<noteq> owner (cog_tables_to_owner_and_mailing (Some t)) \<longrightarrow>
    (\<exists>s' r h i.
        sync_owner_and_mailing s county_data (Some t) (address_role, addressee_role) = (s', Inr r)
        \<and> mailing county_data = mailing (cog_tables_to_owner_and_mailing (Some t))
        \<and> last (writes s') = LinkHumanToAddress (Some h) None addressee_role
        \<and> length (human_mailing_addresses s') = Suc (length (human_mailing_addresses s))
        \<and> last (human_mailing_addresses s') =
             \<lparr>hma_linkid = i, humanmailing_humanid = Some h, humanmailing_addressid = None,
              hma_role = addressee_role, hma_deactivatedts = None\<rparr>))
   \<and> (cog_parcel t = Some p \<and> cog_human t = None \<and> owner county_data = None
      \<and> mailing county_data = Some m
      \<and> mailing county_data \<noteq> mailing (cog_tables_to_owner_and_mailing (Some t)) \<longrightarrow>
    (\<exists>s' r a i.
        sync_owner_and_mailing s county_data (Some t) (address_role, addressee_role) = (s', Inr r)
        \<and> owner county_data = owner (cog_tables_to_owner_and_mailing (Some t))
        \<and> last (writes s') = LinkHumanToAddress None (Some a) addressee_role
        \<and> last (human_mailing_addresses s') =
             \<lparr>hma_linkid = i, humanmailing_humanid = None, humanmailing_addressid = Some a,
              hma_role = addressee_role, hma_deactivatedts = None\<rparr>))"
proof (intro conjI impI)
  assume a: "cog_parcel t = Some p \<and> cog_address t = None \<and> mailing county_data = None
      \<and> owner county_data = Some ow
      \<and> owner county_data \<noteq> owner (cog_tables_to_owner_and_mailing (Some t))"
  then have p: "cog_parcel t = Some p" and ad: "cog_address t = None"
    and mn: "mailing county_data = None" and ow: "owner county_data = Some ow"
    and ne: "owner county_data \<noteq> owner (cog_tables_to_owner_and_mailing (Some t))"
    by blast+
  have same: "mailing county_data = mailing (cog_tables_to_owner_and_mailing (Some t))"
    using ad mn by (simp add: cog_tables_to_owner_and_mailing_def has_address_tables_def)
  have sa: "sync_address s county_data (Some t) address_role = (s, Inr (None, None))"
    using sync_address_same [OF same, of s address_role] ad mn by simp
  let ?s1 = "retire_human_side s (Some t)"
  obtain s2 h where e: "ensure_human ?s1 (name ow) (is_multi_entity ow) = (s2, h)"
    by (cases "ensure_human ?s1 (name ow) (is_multi_entity ow)")
  let ?s3 = "link_human_to_parcel s2 (parcelkey p) (humanid h) addressee_role"
  have sh: "sync_human s county_data (Some t) addressee_role =
      (?s3, Inr (Some (humanid h), Some \<lparr>name = human_name h, is_multi_entity = multihuman h\<rparr>))"
    using p by (intro sync_human_changed [OF ne ow e]) simp
  let ?s' = "link_human_to_address ?s3 (Some (humanid h)) None addressee_role"
  have r: "sync_owner_and_mailing s county_data (Some t) (address_role, addressee_role) =
      (?s', Inr \<lparr>owner = Some \<lparr>name = human_name h, is_multi_entity = multihuman h\<rparr>, mailing = None\<rparr>)"
    using ne sync_owner_and_mailing_ok [OF sa sh] by simp
  have len: "length (human_mailing_addresses ?s3) = length (human_mailing_addresses s)"
    by (auto simp: link_human_to_parcel_def retire_human_side_def deactivate_human_to_address_def
          deactivate_human_def deactivate_human_to_parcel_def Let_def ensure_human_frame(6) [OF e]
          split: option.splits)
  show "\<exists>s' r h i.
        sync_owner_and_mailing s county_data (Some t) (address_role, addressee_role) = (s', Inr r)
        \<and> mailing county_data = mailing (cog_tables_to_owner_and_mailing (Some t))
        \<and> last (writes s') = LinkHumanToAddress (Some h) None addressee_role
        \<and> length (human_mailing_addresses s') = Suc (length (human_mailing_addresses s))
        \<and> last (human_mailing_addresses s') =
             \<lparr>hma_linkid = i, humanmailing_humanid = Some h, humanmailing_addressid = None,
              hma_role = addressee_role, hma_deactivatedts = None\<rparr>"
    apply (rule exI [of _ ?s'], rule exI, rule exI [of _ "humanid h"], rule exI)
    apply (intro conjI)
        apply (rule r)
       apply (rule same)
      apply (simp add: link_human_to_address_def)
     apply (simp add: link_human_to_address_def len)
    apply (simp add: link_human_to_address_def)
    done
next
  assume a: "cog_parcel t = Some p \<and> cog_human t = None \<and> owner county_data = None
      \<and> mailing county_data = Some m
      \<and> mailing county_data \<noteq> mailing (cog_tables_to_owner_and_mailing (Some t))"
  then have p: "cog_parcel t = Some p" and hn: "cog_human t = None"
    and own: "owner county_data = None" and m: "mailing county_data = Some m"
    and ne: "mailing county_data \<noteq> mailing (cog_tables_to_owner_and_mailing (Some t))"
    by blast+
  have same: "owner county_data = owner (cog_tables_to_owner_and_mailing (Some t))"
    using hn own by (simp add: cog_tables_to_owner_and_mailing_def)
  let ?s1 = "retire_address_side s (Some t)"
  obtain s2 c where e2: "ensure_city_state_zip ?s1 (city (last' m)) (state (last' m)) (zip' (last' m)) = (s2, c)"
    by (cases "ensure_city_state_zip ?s1 (city (last' m)) (state (last' m)) (zip' (last' m))")
  obtain s3 st where e3: "ensure_street s2 (csz_id c) (street (delivery m)) (is_pobox (delivery m)) = (s3, st)"
    by (cases "ensure_street s2 (csz_id c) (street (delivery m)) (is_pobox (delivery m))")
  obtain s4 ad where e4: "ensure_address s3 (streetid st) (number (delivery m)) (attn (delivery m)) (secondary (delivery m)) = (s4, ad)"
    by (cases "ensure_address s3 (streetid st) (number (delivery m)) (attn (delivery m)) (secondary (delivery m))")
  let ?s5 = "link_parcel_to_address s4 (parcelkey p) (addressid ad) address_role"
  let ?ra = "Some \<lparr>delivery = \<lparr>is_pobox = pobox st, attn = attention ad, number = bldgno ad,
                                      street = ms_name st, secondary = ma_secondary ad\<rparr>,
                        last' = \<lparr>city = csz_city c, state = state_abbr c, zip' = zip_code c\<rparr>\<rparr>"
  have sa: "sync_address s county_data (Some t) address_role = (?s5, Inr (Some (addressid ad), ?ra))"
    using p by (intro sync_address_changed [OF ne m e2 e3 e4]) simp
  have sh: "sync_human ?s5 county_data (Some t) addressee_role = (?s5, Inr (None, None))"
    using sync_human_same [OF same, of ?s5 addressee_role] hn own by simp
  let ?s' = "link_human_to_address ?s5 None (Some (addressid ad)) addressee_role"
  have r: "sync_owner_and_mailing s county_data (Some t) (address_role, addressee_role) =
      (?s', Inr \<lparr>owner = None, mailing = ?ra\<rparr>)"
    using ne sync_owner_and_mailing_ok [OF sa sh] by simp
  show "\<exists>s' r a i.
        sync_owner_and_mailing s county_data (Some t) (address_role, addressee_role) = (s', Inr r)
        \<and> owner county_data = owner (cog_tables_to_owner_and_mailing (Some t))
        \<and> last (writes s') = LinkHumanToAddress None (Some a) addressee_role
        \<and> last (human_mailing_addresses s') =
             \<lparr>hma_linkid = i, humanmailing_humanid = None, humanmailing_addressid = Some a,
              hma_role = addressee_role, hma_deactivatedts = None\<rparr>"
    apply (rule exI [of _ ?s'], rule exI, rule exI [of _ "addressid ad"], rule exI)
    apply (intro conjI)
       apply (rule r)
      apply (rule same)
     apply (simp add: link_human_to_address_def)
    apply (simp add: link_human_to_address_def)
    done
qed

theorem cross_link_with_null_key_witness:
  "sync_owner_and_mailing example_db \<lparr>owner = Some jane, mailing = None\<rparr>
      (Some (empty_tables\<lparr>cog_parcel := Some example_parcel\<rparr>)) (1, 11)
     = (example_db\<lparr>human_mailing_addresses :=
                      [\<lparr>hma_linkid = 1, humanmailing_humanid = Some 1,
                        humanmailing_addressid = None, hma_role = 11,
                        hma_deactivatedts = None\<rparr>],
                    humans := [example_human],
                    human_parcels := [example_human_parcel],
                    writes := [EnsureHuman ''Jane Smith'' False, LinkHumanToParcel 7 1 11,
                               LinkHumanToAddress (Some 1) None 11]\<rparr>,
        Inr \<lparr>owner = Some jane, mailing = None\<rparr>)
   \<and> (\<exists>s' r h i. sync_owner_and_mailing example_db \<lparr>owner = Some jane, mailing = None\<rparr>
          (Some (empty_tables\<lparr>cog_parcel := Some example_parcel\<rparr>)) (1, 11) = (s', Inr r)
        \<and> last (writes s') = LinkHumanToAddress (Some h) None 11
        \<and> last (human_mailing_addresses s') =
             \<lparr>hma_linkid = i, humanmailing_humanid = Some h, humanmailing_addressid = None,
              hma_role = 11, hma_deactivatedts = None\<rparr>)
   \<and> (\<exists>s' r a i. sync_owner_and_mailing example_db \<lparr>owner = None, mailing = Some example_mailing\<rparr>
          (Some (empty_tables\<lparr>cog_parcel := Some example_parcel\<rparr>)) (1, 11) = (s', Inr r)
        \<and> last (writes s') = LinkHumanToAddress None (Some a) 11
        \<and> last (human_mailing_addresses s') =
             \<lparr>hma_linkid = i, humanmailing_humanid = None, humanmailing_addressid = Some a,
              hma_role = 11, hma_deactivatedts = None\<rparr>)"
proof -
  let ?t = "empty_tables\<lparr>cog_parcel := Some example_parcel\<rparr>"
  let ?cd = "\<lparr>owner = Some jane, mailing = None\<rparr>"
  let ?cd2 = "\<lparr>owner = None, mailing = Some example_mailing\<rparr>"
  have h: "cog_parcel ?t = Some example_parcel \<and> cog_address ?t = None \<and> mailing ?cd = None
      \<and> owner ?cd = Some jane
      \<and> owner ?cd \<noteq> owner (cog_tables_to_owner_and_mailing (Some ?t))"
    by (simp add: empty_tables_def cog_tables_to_owner_and_mailing_def)
  have h2: "cog_parcel ?t = Some example_parcel \<and> cog_human ?t = None \<and> owner ?cd2 = None
      \<and> mailing ?cd2 = Some example_mailing
      \<and> mailing ?cd2 \<noteq> mailing (cog_tables_to_owner_and_mailing (Some ?t))"
    by (simp add: empty_tables_def cog_tables_to_owner_and_mailing_def has_address_tables_def)
  have e: "sync_owner_and_mailing example_db ?cd (Some ?t) (1, 11)
     = (example_db\<lparr>human_mailing_addresses :=
                      [\<lparr>hma_linkid = 1, humanmailing_humanid = Some 1,
                        humanmailing_addressid = None, hma_role = 11,
                        hma_deactivatedts = None\<rparr>],
                    humans := [example_human],
                    human_parcels := [example_human_parcel],
                    writes := [EnsureHuman ''Jane Smith'' False, LinkHumanToParcel 7 1 11,
                               LinkHumanToAddress (Some 1) None 11]\<rparr>,
        Inr \<lparr>owner = Some jane, mailing = None\<rparr>)"
    by code_simp
  from cross_link_with_null_key [of ?t example_parcel ?cd jane example_db 1 11, THEN conjunct1] h
  have "\<exists>s' r h i. sync_owner_and_mailing example_db ?cd (Some ?t) (1, 11) = (s', Inr r)
        \<and> mailing ?cd = mailing (cog_tables_to_owner_and_mailing (Some ?t))
        \<and> last (writes s') = LinkHumanToAddress (Some h) None 11
        \<and> length (human_mailing_addresses s') = Suc (length (human_mailing_addresses example_db))
        \<and> last (human_mailing_addresses s') =
             \<lparr>hma_linkid = i, humanmailing_humanid = Some h, humanmailing_addressid = None,
              hma_role = 11, hma_deactivatedts = None\<rparr>"
    by (rule mp)
  then have c1: "\<exists>s' r h i. sync_owner_and_mailing example_db ?cd (Some ?t) (1, 11) = (s', Inr r)
        \<and> last (writes s') = LinkHumanToAddress (Some h) None 11
        \<and> last (human_mailing_addresses s') =
             \<lparr>hma_linkid = i, humanmailing_humanid = Some h, humanmailing_addressid = None,
              hma_role = 11, hma_deactivatedts = None\<rparr>"
    by blast
  from cross_link_with_null_key [of ?t example_parcel ?cd2 _ example_db 1 11 example_mailing,
      THEN conjunct2] h2
  have "\<exists>s' r a i. sync_owner_and_mailing example_db ?cd2 (Some ?t) (1, 11) = (s', Inr r)
        \<and> owner ?cd2 = owner (cog_tables_to_owner_and_mailing (Some ?t))
        \<and> last (writes s') = LinkHumanToAddress None (Some a) 11
        \<and> last (human_mailing_addresses s') =
             \<lparr>hma_linkid = i, humanmailing_humanid = None, humanmailing_addressid = Some a,
              hma_role = 11, hma_deactivatedts = None\<rparr>"
    by (rule mp)
  then have c2: "\<exists>s' r a i. sync_owner_and_mailing example_db ?cd2 (Some ?t) (1, 11) = (s', Inr r)
        \<and> last (writes s') = LinkHumanToAddress None (Some a) 11
        \<and> last (human_mailing_addresses s') =
             \<lparr>hma_linkid = i, humanmailing_humanid = None, humanmailing_addressid = Some a,
              hma_role = 11, hma_deactivatedts = None\<rparr>"
    by blast
  from e c1 c2 show ?thesis by (intro conjI)
qed

section \<open>The municipality batch skips and continues\<close>

lemma scalar_one_not_html: "scalar_one rows \<noteq> Inl HtmlParsingError"
  by (simp add: scalar_one_def split: list.splits)

lemmas select_defs =
  select_parcel_def select_address_def select_street_def select_city_state_zip_def
  select_human_mailing_address_def select_human_def

lemma read_tables_not_html: "read_tables s l \<noteq> Inl HtmlParsingError"
proof
  assume a: "read_tables s l = Inl HtmlParsingError"
  have 1: "select_address s i \<noteq> Inl HtmlParsingError" for i
    by (simp add: select_defs scalar_one_not_html)
  have 2: "select_street s i \<noteq> Inl HtmlParsingError" for i
    by (simp add: select_defs scalar_one_not_html)
  have 3: "select_city_state_zip s i \<noteq> Inl HtmlParsingError" for i
    by (simp add: select_defs scalar_one_not_html)
  have 4: "select_human_mailing_address s i \<noteq> Inl HtmlParsingError" for i
    by (simp add: select_defs scalar_one_not_html)
  have 5: "select_human s i \<noteq> Inl HtmlParsingError" for i
    by (simp add: select_defs scalar_one_not_html)
  from a show False
    using 1 2 3 4 5
    by (auto simp: read_tables_def bind_err_def Let_def split: sum.splits error.splits prod.splits)
qed

lemma read_all_not_html: "read_all s ls \<noteq> Inl HtmlParsingError"
  using read_tables_not_html
  by (induction ls) (auto simp: bind_err_def split: sum.splits)

lemma match_number_not_html: "match_number n ts \<noteq> Inl HtmlParsingError"
  by (induction ts) (auto split: option.splits)

lemma get_cog_tables_not_html: "get_cog_tables k s pid \<noteq> Inl HtmlParsingError"
proof -
  have "select_parcel s pid \<noteq> Inl HtmlParsingError"
    by (simp add: select_defs scalar_one_not_html)
  then show ?thesis
    using read_all_not_html match_number_not_html
    by (auto simp: get_cog_tables_def bind_err_def Let_def split: sum.splits)
qed

lemma sync_address_error:
  assumes "sync_address s cd ct ar = (s', Inl e)"
  shows "e = AttributeError"
  using assms by (cases rule: sync_address_cases) simp_all

lemma sync_human_error:
  assumes "sync_human s cd ct er = (s', Inl e)"
  shows "e = AttributeError"
  using assms by (cases rule: sync_human_cases) simp_all

lemma sync_owner_and_mailing_error:
  assumes "sync_owner_and_mailing s cd ct roles = (s', Inl e)"
  shows "e = AttributeError"
proof -
  obtain ar er where roles: "roles = (ar, er)" by (cases roles)
  from assms [unfolded roles] show ?thesis
    by (cases rule: sync_owner_and_mailing_cases)
       (auto dest: sync_address_error sync_human_error)
qed

lemma sync_county_data_not_html:
  "snd (sync_county_data k s pid cd) \<noteq> Inl HtmlParsingError"
  using get_cog_tables_not_html [of k s pid]
  by (auto simp: sync_county_data_def split: sum.splits prod.splits
           dest!: sync_owner_and_mailing_error)

lemma sync_parcel_data_html:
  "html_fails pg ps p \<Longrightarrow>
     sync_parcel_data pg ps k s (parcelidcnty p) = (s, Inl HtmlParsingError)"
  "\<not> html_fails pg ps p \<Longrightarrow>
     snd (sync_parcel_data pg ps k s (parcelidcnty p)) \<noteq> Inl HtmlParsingError"
  using sync_county_data_not_html
  by (auto simp: html_fails_def sync_parcel_data_def split: sum.splits)

lemma sync_loop_not_html: "snd (sync_loop step s ps sd) \<noteq> Inl HtmlParsingError"
  by (induction ps arbitrary: s sd) (auto split: prod.splits sum.splits error.splits)

lemma sync_loop_result:
  assumes "\<And>s p. p \<in> set ps \<Longrightarrow> f p \<Longrightarrow> step s (parcelidcnty p) = (s, Inl HtmlParsingError)"
    and "\<And>s p. p \<in> set ps \<Longrightarrow> \<not> f p \<Longrightarrow> snd (step s (parcelidcnty p)) \<noteq> Inl HtmlParsingError"
    and "sync_loop step s ps sd = (s', Inr sd')"
  shows "sd' = \<lparr>total = total sd + length ps,
                skipped = skipped sd @ map parcelkey (filter f ps)\<rparr>"
  using assms
proof (induction ps arbitrary: s sd)
  case Nil
  then show ?case by simp
next
  case (Cons p ps)
  show ?case
  proof (cases "f p")
    case True
    then have st: "step s (parcelidcnty p) = (s, Inl HtmlParsingError)"
      using Cons.prems(1) by simp
    with Cons.prems(3) have "sync_loop step s ps
        (sd\<lparr>skipped := skipped sd @ [parcelkey p], total := total sd + 1\<rparr>) = (s', Inr sd')"
      by simp
    from Cons.IH [OF _ _ this] Cons.prems(1,2) True show ?thesis by simp
  next
    case False
    then have nh: "snd (step s (parcelidcnty p)) \<noteq> Inl HtmlParsingError"
      using Cons.prems(2) by simp
    obtain s1 r where st: "step s (parcelidcnty p) = (s1, r)" by (cases "step s (parcelidcnty p)")
    with nh Cons.prems(3) obtain v where r: "r = Inr v"
      by (cases r) (auto split: error.splits)
    with st Cons.prems(3) have "sync_loop step s1 ps (sd\<lparr>total := total sd + 1\<rparr>) = (s', Inr sd')"
      by simp
    from Cons.IH [OF _ _ this] Cons.prems(1,2) False show ?thesis by simp
  qed
qed

lemma sync_loop_filter:
  assumes "\<And>s p. p \<in> set ps \<Longrightarrow> f p \<Longrightarrow> step s (parcelidcnty p) = (s, Inl HtmlParsingError)"
    and "sync_loop step s (filter (\<lambda>p. \<not> f p) ps) sd0 = (s', Inr sd0')"
  shows "\<exists>sd'. sync_loop step s ps sd = (s', Inr sd')"
  using assms
proof (induction ps arbitrary: s sd sd0)
  case Nil
  then show ?case by simp
next
  case (Cons p ps)
  show ?case
  proof (cases "f p")
    case True
    then have st: "step s (parcelidcnty p) = (s, Inl HtmlParsingError)"
      using Cons.prems(1) by simp
    from True Cons.prems(2) have "sync_loop step s (filter (\<lambda>p. \<not> f p) ps) sd0 = (s', Inr sd0')"
      by simp
    from Cons.IH [OF _ this] Cons.prems(1) st show ?thesis by simp
  next
    case False
    obtain s1 r where st: "step s (parcelidcnty p) = (s1, r)" by (cases "step s (parcelidcnty p)")
    from False Cons.prems(2) have run: "sync_loop step s (p # filter (\<lambda>p. \<not> f p) ps) sd0 = (s', Inr sd0')"
      by simp
    show ?thesis
    proof (cases r)
      case (Inr v)
      with st run have "sync_loop step s1 (filter (\<lambda>p. \<not> f p) ps) (sd0\<lparr>total := total sd0 + 1\<rparr>)
          = (s', Inr sd0')" by simp
      from Cons.IH [OF _ this] Cons.prems(1) st Inr show ?thesis by simp
    next
      case (Inl e)
      show ?thesis
      proof (cases "e = HtmlParsingError")
        case True
        with st Inl run have "sync_loop step s1 (filter (\<lambda>p. \<not> f p) ps)
          (sd0\<lparr>skipped := skipped sd0 @ [parcelkey p], total := total sd0 + 1\<rparr>) = (s', Inr sd0')"
          by simp
        from Cons.IH [OF _ this] Cons.prems(1) st Inl True show ?thesis by simp
      next
        case False
        with st Inl run show ?thesis by (cases e) simp_all
      qed
    qed
  qed
qed

text \<open>
  Claim C9. The batch is never left by an \<open>HtmlParsingError\<close>. When it returns, the
  total is the number of parcels of the municipality and the skipped keys are those of
  exactly the parcels whose page raises \<open>HtmlParsingError\<close>, in order. When the syncs of
  the other parcels, run in order, all return, the batch returns, in the state those
  syncs leave: the skipped parcels change nothing and every other parcel is reconciled.
\<close>

theorem sync_municipality_skips:
  "snd (sync_municipality pg ps k s municode) \<noteq> Inl HtmlParsingError
   \<and> (\<forall>s' sd. sync_municipality pg ps k s municode = (s', Inr sd) \<longrightarrow>
         total sd = length (parcels_by_municode s municode)
         \<and> skipped sd = map parcelkey (filter (html_fails pg ps) (parcels_by_municode s municode)))
   \<and> (\<forall>s' sd0. sync_loop (sync_parcel_data pg ps k) s
                   (filter (\<lambda>p. \<not> html_fails pg ps p) (parcels_by_municode s municode))
                   \<lparr>total = 0, skipped = []\<rparr> = (s', Inr sd0) \<longrightarrow>
         sync_municipality pg ps k s municode =
           (s', Inr \<lparr>total = length (parcels_by_municode s municode),
                     skipped = map parcelkey
                       (filter (html_fails pg ps) (parcels_by_municode s municode))\<rparr>))"
proof (intro conjI allI impI)
  show "snd (sync_municipality pg ps k s municode) \<noteq> Inl HtmlParsingError"
    unfolding sync_municipality_def by (rule sync_loop_not_html)
next
  fix s' sd
  assume a: "sync_municipality pg ps k s municode = (s', Inr sd)"
  have "sd = \<lparr>total = total \<lparr>total = 0, skipped = []\<rparr> + length (parcels_by_municode s municode),
              skipped = skipped \<lparr>total = 0, skipped = []\<rparr>
                @ map parcelkey (filter (html_fails pg ps) (parcels_by_municode s municode))\<rparr>"
    by (rule sync_loop_result [where step = "sync_parcel_data pg ps k" and s = s])
       (use a in \<open>simp_all add: sync_parcel_data_html sync_municipality_def\<close>)
  then show "total sd = length (parcels_by_municode s municode)"
    and "skipped sd = map parcelkey (filter (html_fails pg ps) (parcels_by_municode s municode))"
    by simp_all
next
  fix s' sd0
  assume a: "sync_loop (sync_parcel_data pg ps k) s
                   (filter (\<lambda>p. \<not> html_fails pg ps p) (parcels_by_municode s municode))
                   \<lparr>total = 0, skipped = []\<rparr> = (s', Inr sd0)"
  obtain sd' where r: "sync_loop (sync_parcel_data pg ps k) s (parcels_by_municode s municode)
      \<lparr>total = 0, skipped = []\<rparr> = (s', Inr sd')"
    using sync_loop_filter [where f = "html_fails pg ps", OF _ a] sync_parcel_data_html(1)
    by blast
  have "sd' = \<lparr>total = total \<lparr>total = 0, skipped = []\<rparr> + length (parcels_by_municode s municode),
              skipped = skipped \<lparr>total = 0, skipped = []\<rparr>
                @ map parcelkey (filter (html_fails pg ps) (parcels_by_municode s municode))\<rparr>"
    by (rule sync_loop_result [where step = "sync_parcel_data pg ps k" and s = s])
       (use r in \<open>simp_all add: sync_parcel_data_html\<close>)
  with r show "sync_municipality pg ps k s municode =
           (s', Inr \<lparr>total = length (parcels_by_municode s municode),
                     skipped = map parcelkey
                       (filter (html_fails pg ps) (parcels_by_municode s municode))\<rparr>)"
    by (simp add: sync_municipality_def)
qed

theorem sync_municipality_skips_witness:
  "snd (sync_municipality example_pages example_parsers example_roles example_db3 100)
     = Inr \<lparr>total = 3, skipped = [2]\<rparr>
   \<and> map parcel_parcelkey (parcel_mailing_addresses
         (fst (sync_municipality example_pages example_parsers example_roles example_db3 100)))
     = [1, 3]"
proof -
  let ?ps = "parcels_by_municode example_db3 100"
  let ?R = "sync_loop (sync_parcel_data example_pages example_parsers example_roles) example_db3
              (filter (\<lambda>p. \<not> html_fails example_pages example_parsers p) ?ps)
              \<lparr>total = 0, skipped = []\<rparr>"
  have r: "snd ?R = Inr \<lparr>total = 2, skipped = []\<rparr>" by code_simp
  have R: "?R = (fst ?R, Inr \<lparr>total = 2, skipped = []\<rparr>)"
    using r by (metis prod.collapse)
  have n: "length ?ps = 3" by code_simp
  have k: "map parcelkey (filter (html_fails example_pages example_parsers) ?ps) = [2]"
    by code_simp
  have "sync_municipality example_pages example_parsers example_roles example_db3 100 =
      (fst ?R, Inr \<lparr>total = length ?ps,
                    skipped = map parcelkey (filter (html_fails example_pages example_parsers) ?ps)\<rparr>)"
    using sync_municipality_skips [of example_pages example_parsers example_roles example_db3 100,
        THEN conjunct2, THEN conjunct2, THEN spec, THEN spec, THEN mp, OF R] .
  then have a: "snd (sync_municipality example_pages example_parsers example_roles example_db3 100)
     = Inr \<lparr>total = 3, skipped = [2]\<rparr>"
    by (simp add: n k)
  have b: "map parcel_parcelkey (parcel_mailing_addresses
         (fst (sync_municipality example_pages example_parsers example_roles example_db3 100)))
     = [1, 3]"
    by code_simp
  from a b show ?thesis by (intro conjI)
qed

section \<open>At most one active link for a parcel and a role\<close>

lemma retire_address_side_links:
  "parcel_mailing_addresses (retire_address_side s ct) =
     retire_links ct (now s) (parcel_mailing_addresses s)"
  by (auto simp: retire_address_side_def retire_links_def deactivate_defs Let_def
           split: option.splits)

lemma filter_retire_links:
  "filter (active_link pk role) (retire_links ct ts xs) =
     filter (not_chain_link ct) (filter (active_link pk role) xs)"
proof (cases "Option.bind ct cog_parcel_address")
  case None
  then show ?thesis by (simp add: retire_links_def not_chain_link_def)
next
  case (Some l)
  have "filter (active_link pk role)
          (map (\<lambda>x. if pma_linkid x = pma_linkid l then x\<lparr>pma_deactivatedts := Some ts\<rparr> else x) xs)
        = filter (\<lambda>x. pma_linkid x \<noteq> pma_linkid l) (filter (active_link pk role) xs)"
    by (induction xs) (auto simp: active_link_def)
  with Some show ?thesis by (simp add: retire_links_def not_chain_link_def)
qed

lemma sync_address_links:
  assumes "sync_address s cd ct ar = (s', res)"
  shows "parcel_mailing_addresses s' = parcel_mailing_addresses s
     \<or> parcel_mailing_addresses s' = retire_links ct (now s) (parcel_mailing_addresses s)
     \<or> (\<exists>p a i. Option.bind ct cog_parcel = Some p
           \<and> parcel_mailing_addresses s' =
               retire_links ct (now s) (parcel_mailing_addresses s) @
               [\<lparr>pma_linkid = i, parcel_parcelkey = parcelkey p, mailingaddress_addressid = a,
                 linkedobjectrole_lorid = ar, pma_deactivatedts = None\<rparr>])"
  using assms
proof (cases rule: sync_address_cases)
  case same
  then show ?thesis by simp
next
  case no_mailing
  then show ?thesis by (simp add: retire_address_side_links)
next
  case (no_parcel m s2 c s3 st a)
  then show ?thesis
    using ensure_city_state_zip_frame(2) [OF no_parcel(3)] ensure_street_frame(2) [OF no_parcel(4)]
      ensure_address_frame(2) [OF no_parcel(5)]
    by (simp add: retire_address_side_links)
next
  case (linked m s2 c s3 st s4 a p)
  have "parcel_mailing_addresses s4 = retire_links ct (now s) (parcel_mailing_addresses s)"
    using ensure_city_state_zip_frame(2) [OF linked(3)] ensure_street_frame(2) [OF linked(4)]
      ensure_address_frame(2) [OF linked(5)]
    by (simp add: retire_address_side_links)
  with linked(6,7) show ?thesis
    by (simp add: link_parcel_to_address_def)
qed

lemma sync_owner_and_mailing_links:
  assumes "sync_owner_and_mailing s cd ct (ar, er) = (s', res)"
  shows "\<exists>s1 r1. sync_address s cd ct ar = (s1, r1)
           \<and> parcel_mailing_addresses s' = parcel_mailing_addresses s1"
  using assms
proof (cases rule: sync_owner_and_mailing_cases)
  case (address_error e)
  then show ?thesis by simp
next
  case (human_error s1 aid ra e)
  then show ?thesis using sync_human_frame(2) [OF human_error(2)] by simp
next
  case (ok s1 aid ra s2 hid rh)
  then show ?thesis using sync_human_frame(2) [OF ok(2)]
    by (auto simp: link_human_to_address_def)
qed

text \<open>What one call does to the active links of a pair (parcel, role).\<close>

lemma sync_owner_and_mailing_active_links:
  assumes "sync_owner_and_mailing s cd ct (ar, er) = (s', res)"
  shows "active_links s' pk role = active_links s pk role
     \<or> active_links s' pk role = filter (not_chain_link ct) (active_links s pk role)
     \<or> (\<exists>p x. Option.bind ct cog_parcel = Some p \<and> pk = parcelkey p \<and> role = ar
           \<and> active_links s' pk role = filter (not_chain_link ct) (active_links s pk role) @ [x])"
proof -
  obtain s1 r1 where a: "sync_address s cd ct ar = (s1, r1)"
    and l: "parcel_mailing_addresses s' = parcel_mailing_addresses s1"
    using sync_owner_and_mailing_links [OF assms] by blast
  from sync_address_links [OF a]
  consider "parcel_mailing_addresses s1 = parcel_mailing_addresses s"
    | "parcel_mailing_addresses s1 = retire_links ct (now s) (parcel_mailing_addresses s)"
    | p a i where "Option.bind ct cog_parcel = Some p"
        "parcel_mailing_addresses s1 =
               retire_links ct (now s) (parcel_mailing_addresses s) @
               [\<lparr>pma_linkid = i, parcel_parcelkey = parcelkey p, mailingaddress_addressid = a,
                 linkedobjectrole_lorid = ar, pma_deactivatedts = None\<rparr>]"
    by blast
  then show ?thesis
  proof cases
    case 1
    then show ?thesis by (simp add: active_links_def l)
  next
    case 2
    then show ?thesis by (simp add: active_links_def l filter_retire_links)
  next
    case (3 p a i)
    show ?thesis
    proof (cases "pk = parcelkey p \<and> role = ar")
      case True
      with 3 show ?thesis
        by (simp add: active_links_def l filter_retire_links active_link_def)
    next
      case False
      with 3 have "active_links s' pk role = filter (not_chain_link ct) (active_links s pk role)"
        by (auto simp add: active_links_def l filter_retire_links active_link_def)
      then show ?thesis by simp
    qed
  qed
qed

lemma chain_link_ok_filter:
  assumes "chain_link_ok s pk role t" and "active_links s' pk role = filter P (active_links s pk role)"
  shows "chain_link_ok s' pk role t"
  using assms by (auto simp: chain_link_ok_def list_all_iff split: option.splits)

lemma chain_link_ok_clears:
  assumes "chain_link_ok s pk role t"
  shows "filter (not_chain_link (Some t)) (active_links s pk role) = []"
  using assms
  by (auto simp: chain_link_ok_def not_chain_link_def list_all_iff filter_empty_conv
           split: option.splits)

lemma call_keeps_bound:
  assumes call: "sync_owner_and_mailing s cd (Some t) (ar, er) = (s', res)"
    and p: "cog_parcel t = Some p"
    and ok: "chain_link_ok s (parcelkey p) ar t"
    and inv: "\<And>pk role. length (active_links s pk role) \<le> 1"
  shows "length (active_links s' pk role) \<le> 1"
    and "pk \<noteq> parcelkey p \<or> role \<noteq> ar \<Longrightarrow>
           \<exists>P. active_links s' pk role = filter P (active_links s pk role)"
proof -
  from sync_owner_and_mailing_active_links [OF call, of pk role]
  consider "active_links s' pk role = active_links s pk role"
    | "active_links s' pk role = filter (not_chain_link (Some t)) (active_links s pk role)"
    | x where "pk = parcelkey p" "role = ar"
        "active_links s' pk role = filter (not_chain_link (Some t)) (active_links s pk role) @ [x]"
    using p by auto
  note cases3 = this
  show "length (active_links s' pk role) \<le> 1"
  proof (cases rule: cases3)
    case 1
    then show ?thesis using inv by simp
  next
    case 2
    have "length (filter (not_chain_link (Some t)) (active_links s pk role))
        \<le> length (active_links s pk role)" by (rule length_filter_le)
    also have "\<dots> \<le> 1" by (rule inv)
    finally show ?thesis unfolding 2 .
  next
    case (3 x)
    then show ?thesis using chain_link_ok_clears [OF ok] by simp
  qed
  show "\<exists>P. active_links s' pk role = filter P (active_links s pk role)"
    if "pk \<noteq> parcelkey p \<or> role \<noteq> ar"
  proof (cases rule: cases3)
    case 1
    then have "active_links s' pk role = filter (\<lambda>x. True) (active_links s pk role)" by simp
    then show ?thesis by blast
  next
    case 2
    then show ?thesis by blast
  next
    case (3 x)
    with that show ?thesis by simp
  qed
qed

text \<open>
  The chain that \<open>get_cog_tables\<close> returns for a side is current for the role constant the
  side is matched with. So with role constants under which the reader matches the
  address role of each pair, and two different address roles, both calls of
  \<open>sync_parcel_data\<close> are passed current chains and any sequence of syncs keeps the bound.
\<close>

lemma match_number_None:
  "match_number n ts = Inr None \<Longrightarrow> t \<in> set ts \<Longrightarrow> cog_parcel_address t = Some l \<Longrightarrow>
     linkedobjectrole_lorid l \<noteq> n"
  by (induction ts) (auto split: option.splits if_splits)

lemma match_number_Some:
  "match_number n ts = Inr (Some t) \<Longrightarrow>
     t \<in> set ts \<and> (\<exists>l. cog_parcel_address t = Some l \<and> linkedobjectrole_lorid l = n)"
  by (induction ts) (auto split: option.splits if_splits)

lemma active_links_select:
  "active_links s pk role =
     filter (\<lambda>l. linkedobjectrole_lorid l = role) (select_parcel_mailing_addresses s pk)"
  by (auto simp: active_links_def select_parcel_mailing_addresses_def active_link_def
           intro: filter_cong)

lemma matched_chain_link_ok:
  assumes ts: "read_all s (select_parcel_mailing_addresses s pk) = Inr ts"
    and g: "match_number n ts = Inr g"
    and inv: "length (active_links s pk n) \<le> 1"
  shows "chain_link_ok s pk n ((case g of Some t \<Rightarrow> t | None \<Rightarrow> empty_tables)\<lparr>cog_parcel := Some p\<rparr>)"
proof (cases g)
  case None
  have "linkedobjectrole_lorid l \<noteq> n" if "l \<in> set (select_parcel_mailing_addresses s pk)" for l
  proof -
    from that have "Some l \<in> set (map cog_parcel_address ts)"
      unfolding read_all_parcel_address [OF ts] by simp
    then obtain t where "t \<in> set ts" "cog_parcel_address t = Some l" by auto
    with g None show ?thesis using match_number_None by blast
  qed
  then have "active_links s pk n = []"
    unfolding active_links_select by (simp add: filter_empty_conv)
  with None show ?thesis by (simp add: chain_link_ok_def empty_tables_def)
next
  case (Some t)
  with g obtain l where t: "t \<in> set ts" and l: "cog_parcel_address t = Some l"
    and r: "linkedobjectrole_lorid l = n"
    using match_number_Some by blast
  from t l have "Some l \<in> set (map cog_parcel_address ts)" by force
  then have "l \<in> set (select_parcel_mailing_addresses s pk)"
    unfolding read_all_parcel_address [OF ts] by auto
  with r have "l \<in> set (active_links s pk n)"
    unfolding active_links_select by simp
  with inv have "active_links s pk n = [l]"
    by (cases "active_links s pk n") auto
  with Some l show ?thesis by (simp add: chain_link_ok_def)
qed

lemma get_cog_tables_chain:
  assumes "get_cog_tables k s pid = Inr c"
    and inv: "\<And>pk role. length (active_links s pk role) \<le> 1"
  shows "\<exists>p. cog_parcel (cog_general c) = Some p \<and> cog_parcel (cog_mortgage c) = Some p
     \<and> chain_link_ok s (parcelkey p) (GENERAL_HUMAN_MAILING_ADDRESS k) (cog_general c)
     \<and> chain_link_ok s (parcelkey p) (MORTGAGE_HUMAN_MAILING_ADDRESS k) (cog_mortgage c)"
proof -
  from assms(1) obtain p ts g m where
    ts: "read_all s (select_parcel_mailing_addresses s (parcelkey p)) = Inr ts"
    and g: "match_number (GENERAL_HUMAN_MAILING_ADDRESS k) ts = Inr g"
    and m: "match_number (MORTGAGE_HUMAN_MAILING_ADDRESS k) ts = Inr m"
    and c: "c = \<lparr>cog_general = (case g of Some t \<Rightarrow> t | None \<Rightarrow> empty_tables)\<lparr>cog_parcel := Some p\<rparr>,
                 cog_mortgage = (case m of Some t \<Rightarrow> t | None \<Rightarrow> empty_tables)\<lparr>cog_parcel := Some p\<rparr>\<rparr>"
    by (auto simp: get_cog_tables_def bind_err_def Let_def split: sum.splits)
  show ?thesis
    using matched_chain_link_ok [OF ts g inv] matched_chain_link_ok [OF ts m inv]
    by (intro exI [of _ p]) (simp add: c)
qed

lemma sync_county_data_keeps_bound:
  assumes gk: "fst (general_roles k) = GENERAL_HUMAN_MAILING_ADDRESS k"
    and mk: "fst (mortgage_roles k) = MORTGAGE_HUMAN_MAILING_ADDRESS k"
    and ne: "GENERAL_HUMAN_MAILING_ADDRESS k \<noteq> MORTGAGE_HUMAN_MAILING_ADDRESS k"
    and inv: "\<And>pk role. length (active_links s pk role) \<le> 1"
  shows "length (active_links (fst (sync_county_data k s pid cd)) pk role) \<le> 1"
proof (cases "get_cog_tables k s pid")
  case (Inl e)
  then show ?thesis using inv by (simp add: sync_county_data_def)
next
  case (Inr c)
  obtain p where p: "cog_parcel (cog_general c) = Some p" "cog_parcel (cog_mortgage c) = Some p"
    and okg: "chain_link_ok s (parcelkey p) (GENERAL_HUMAN_MAILING_ADDRESS k) (cog_general c)"
    and okm: "chain_link_ok s (parcelkey p) (MORTGAGE_HUMAN_MAILING_ADDRESS k) (cog_mortgage c)"
    using get_cog_tables_chain [OF Inr inv] by blast
  obtain ag eg where rg: "general_roles k = (ag, eg)" by (cases "general_roles k")
  obtain am em where rm: "mortgage_roles k = (am, em)" by (cases "mortgage_roles k")
  from gk rg have ag: "ag = GENERAL_HUMAN_MAILING_ADDRESS k" by simp
  from mk rm have am: "am = MORTGAGE_HUMAN_MAILING_ADDRESS k" by simp
  obtain s1 r1 where c1: "sync_owner_and_mailing s (general cd) (Some (cog_general c)) (ag, eg) = (s1, r1)"
    by (cases "sync_owner_and_mailing s (general cd) (Some (cog_general c)) (ag, eg)")
  have inv1: "length (active_links s1 pk role) \<le> 1" for pk role
    using call_keeps_bound(1) [OF c1 p(1) okg [folded ag] inv] .
  show ?thesis
  proof (cases r1)
    case (Inl e)
    with Inr c1 rg show ?thesis using inv1 by (simp add: sync_county_data_def)
  next
    case r1: (Inr g)
    obtain s2 r2 where c2: "sync_owner_and_mailing s1 (mortgage cd) (Some (cog_mortgage c)) (am, em) = (s2, r2)"
      by (cases "sync_owner_and_mailing s1 (mortgage cd) (Some (cog_mortgage c)) (am, em)")
    have "\<exists>P. active_links s1 (parcelkey p) am = filter P (active_links s (parcelkey p) am)"
      using call_keeps_bound(2) [OF c1 p(1) okg [folded ag] inv, of "parcelkey p" am] ne ag am
      by simp
    then obtain P where "active_links s1 (parcelkey p) am = filter P (active_links s (parcelkey p) am)"
      by blast
    then have okm1: "chain_link_ok s1 (parcelkey p) am (cog_mortgage c)"
      using chain_link_ok_filter okm am by blast
    have inv2: "length (active_links s2 pk role) \<le> 1"
      using call_keeps_bound(1) [OF c2 p(2) okm1 inv1] .
    have "fst (sync_county_data k s pid cd) = s2"
      using Inr c1 r1 c2 rg rm by (auto simp: sync_county_data_def split: sum.splits)
    with inv2 show ?thesis by simp
  qed
qed

lemma sync_all_keeps_bound:
  assumes gk: "fst (general_roles k) = GENERAL_HUMAN_MAILING_ADDRESS k"
    and mk: "fst (mortgage_roles k) = MORTGAGE_HUMAN_MAILING_ADDRESS k"
    and ne: "GENERAL_HUMAN_MAILING_ADDRESS k \<noteq> MORTGAGE_HUMAN_MAILING_ADDRESS k"
    and inv: "\<And>pk role. length (active_links s pk role) \<le> 1"
  shows "length (active_links (sync_all k s calls) pk role) \<le> 1"
  using inv
proof (induction calls arbitrary: s pk role)
  case Nil
  then show ?case by simp
next
  case (Cons call calls)
  obtain pid cd where call: "call = (pid, cd)" by (cases call)
  have "length (active_links (fst (sync_county_data k s pid cd)) pk' role') \<le> 1" for pk' role'
    using sync_county_data_keeps_bound [OF gk mk ne Cons.prems] .
  from Cons.IH [OF this] show ?case by (simp add: call)
qed

lemma retire_address_side_order:
  "\<exists>before. writes (retire_address_side s ct) = writes s @ before
      \<and> (\<forall>w \<in> set before. \<not> is_parcel_link w)
      \<and> (\<forall>l. Option.bind ct cog_parcel_address = Some l \<longrightarrow>
             DeactivateParcelToAddress (pma_linkid l) \<in> set before)"
  by (auto simp: retire_address_side_def deactivate_defs Let_def is_parcel_link_def
           split: option.splits)

lemma sync_address_order:
  assumes "sync_address s cd ct ar = (s', res)"
  shows "\<exists>before after. writes s' = writes s @ before @ after
      \<and> (\<forall>w \<in> set before. \<not> is_parcel_link w)
      \<and> (\<forall>w \<in> set after. \<not> is_parcel_retire w)
      \<and> (mailing cd \<noteq> mailing (cog_tables_to_owner_and_mailing ct) \<longrightarrow>
           (\<forall>l. Option.bind ct cog_parcel_address = Some l \<longrightarrow>
              DeactivateParcelToAddress (pma_linkid l) \<in> set before))"
proof -
  obtain before where b: "writes (retire_address_side s ct) = writes s @ before"
      "\<forall>w \<in> set before. \<not> is_parcel_link w"
      "\<forall>l. Option.bind ct cog_parcel_address = Some l \<longrightarrow>
             DeactivateParcelToAddress (pma_linkid l) \<in> set before"
    using retire_address_side_order [of s ct] by (elim exE conjE)
  from assms show ?thesis
  proof (cases rule: sync_address_cases)
    case same
    then show ?thesis by (intro exI [of _ "[]"]) simp
  next
    case no_mailing
    with b show ?thesis by (intro exI [of _ before] exI [of _ "[]"]) simp
  next
    case (no_parcel m s2 c s3 st a)
    let ?e = "[EnsureCityStateZip (city (last' m)) (state (last' m)) (zip' (last' m)),
               EnsureStreet (csz_id c) (street (delivery m)) (is_pobox (delivery m)),
               EnsureAddress (streetid st) (number (delivery m)) (attn (delivery m)) (secondary (delivery m))]"
    have "writes s' = writes s @ before @ ?e"
      using ensure_city_state_zip_frame(9) [OF no_parcel(3)] ensure_street_frame(9) [OF no_parcel(4)]
        ensure_address_frame(9) [OF no_parcel(5)] b(1) by simp
    with b show ?thesis
      by (intro exI [of _ before] exI [of _ ?e]) (simp add: is_parcel_retire_def)
  next
    case (linked m s2 c s3 st s4 a p)
    let ?e = "[EnsureCityStateZip (city (last' m)) (state (last' m)) (zip' (last' m)),
               EnsureStreet (csz_id c) (street (delivery m)) (is_pobox (delivery m)),
               EnsureAddress (streetid st) (number (delivery m)) (attn (delivery m)) (secondary (delivery m)),
               LinkParcelToAddress (parcelkey p) (addressid a) ar]"
    have "writes s' = writes s @ before @ ?e"
      using ensure_city_state_zip_frame(9) [OF linked(3)] ensure_street_frame(9) [OF linked(4)]
        ensure_address_frame(9) [OF linked(5)] b(1) linked(7) by (simp add: link_defs)
    with b show ?thesis
      by (intro exI [of _ before] exI [of _ ?e]) (simp add: is_parcel_retire_def)
  qed
qed

lemma address_side_write_retire: "is_parcel_retire w \<Longrightarrow> address_side_write w"
  by (cases w) (simp_all add: is_parcel_retire_def)

lemma sync_owner_and_mailing_order:
  assumes "sync_owner_and_mailing s cd ct roles = (s', res)"
  shows "\<exists>before after. writes s' = writes s @ before @ after
      \<and> (\<forall>w \<in> set before. \<not> is_parcel_link w)
      \<and> (\<forall>w \<in> set after. \<not> is_parcel_retire w)
      \<and> (mailing cd \<noteq> mailing (cog_tables_to_owner_and_mailing ct) \<longrightarrow>
           (\<forall>l. Option.bind ct cog_parcel_address = Some l \<longrightarrow>
              DeactivateParcelToAddress (pma_linkid l) \<in> set before))"
proof -
  obtain ar er where roles: "roles = (ar, er)" by (cases roles)
  have ext: ?thesis
    if a: "sync_address s cd ct ar = (s1, r1)"
      and w: "writes s' = writes s1 @ ws" "\<forall>w \<in> set ws. \<not> is_parcel_retire w" for s1 r1 ws
  proof -
    obtain before after where ba: "writes s1 = writes s @ before @ after"
      "\<forall>w \<in> set before. \<not> is_parcel_link w" "\<forall>w \<in> set after. \<not> is_parcel_retire w"
      "mailing cd \<noteq> mailing (cog_tables_to_owner_and_mailing ct) \<longrightarrow>
           (\<forall>l. Option.bind ct cog_parcel_address = Some l \<longrightarrow>
              DeactivateParcelToAddress (pma_linkid l) \<in> set before)"
      using sync_address_order [OF a] by (elim exE conjE)
    show ?thesis
      using ba w by (intro exI [of _ before] exI [of _ "after @ ws"]) auto
  qed
  from assms [unfolded roles] show ?thesis
  proof (cases rule: sync_owner_and_mailing_cases)
    case (address_error e)
    show ?thesis by (rule ext [OF address_error(1), of "[]"]) simp_all
  next
    case (human_error s1 aid ra e)
    obtain ws where "writes s' = writes s1 @ ws" "\<forall>w \<in> set ws. \<not> address_side_write w"
      using sync_human_writes [OF human_error(2)] by (elim exE conjE)
    then show ?thesis
      using address_side_write_retire by (intro ext [OF human_error(1), of ws]) auto
  next
    case (ok s1 aid ra s2 hid rh)
    obtain ws where ws: "writes s2 = writes s1 @ ws" "\<forall>w \<in> set ws. \<not> address_side_write w"
      using sync_human_writes [OF ok(2)] by (elim exE conjE)
    show ?thesis
    proof (cases "s' = s2")
      case True
      with ws show ?thesis
        using address_side_write_retire by (intro ext [OF ok(1), of ws]) auto
    next
      case False
      with ok(3) have "s' = link_human_to_address s2 hid aid er" by (simp split: if_splits)
      then have "writes s' = writes s1 @ (ws @ [LinkHumanToAddress hid aid er])"
        using ws(1) by (simp add: link_defs)
      moreover have "\<forall>w \<in> set (ws @ [LinkHumanToAddress hid aid er]). \<not> is_parcel_retire w"
        using ws(2) address_side_write_retire by (auto simp: is_parcel_retire_def)
      ultimately show ?thesis by (rule ext [OF ok(1)])
    qed
  qed
qed

lemma current_call_keeps_bound:
  assumes call: "sync_owner_and_mailing s cd ct (ar, er) = (s', res)"
    and ok: "current_chain s ct ar"
    and inv: "\<And>pk role. length (active_links s pk role) \<le> 1"
  shows "length (active_links s' pk role) \<le> 1"
proof -
  have le: "length (filter (not_chain_link ct) (active_links s pk role)) \<le> 1"
  proof -
    have "length (filter (not_chain_link ct) (active_links s pk role))
        \<le> length (active_links s pk role)" by (rule length_filter_le)
    also have "\<dots> \<le> 1" by (rule inv)
    finally show ?thesis .
  qed
  from sync_owner_and_mailing_active_links [OF call, of pk role]
  consider "active_links s' pk role = active_links s pk role"
    | "active_links s' pk role = filter (not_chain_link ct) (active_links s pk role)"
    | p x where "Option.bind ct cog_parcel = Some p" "pk = parcelkey p" "role = ar"
        "active_links s' pk role = filter (not_chain_link ct) (active_links s pk role) @ [x]"
    by blast
  then show ?thesis
  proof cases
    case 1
    then show ?thesis using inv by simp
  next
    case 2
    then show ?thesis using le by simp
  next
    case (3 p x)
    from 3(1) obtain t where t: "ct = Some t" "cog_parcel t = Some p"
      by (cases ct) auto
    with ok have "chain_link_ok s (parcelkey p) ar t" by (simp add: current_chain_def)
    then have "filter (not_chain_link (Some t)) (active_links s (parcelkey p) ar) = []"
      by (rule chain_link_ok_clears)
    with 3 t show ?thesis by simp
  qed
qed

lemma reconcile_all_keeps_bound:
  assumes "\<And>pk role. length (active_links s pk role) \<le> 1" and "current_chains s calls"
  shows "length (active_links (reconcile_all s calls) pk role) \<le> 1"
  using assms
proof (induction calls arbitrary: s pk role)
  case Nil
  then show ?case by simp
next
  case (Cons call calls)
  obtain cd ct ar er where call: "call = (cd, ct, ar, er)" by (cases call)
  let ?s' = "fst (sync_owner_and_mailing s cd ct (ar, er))"
  have c: "sync_owner_and_mailing s cd ct (ar, er) = (?s', snd (sync_owner_and_mailing s cd ct (ar, er)))"
    by simp
  from Cons.prems(2) have ok: "current_chain s ct ar" and rest: "current_chains ?s' calls"
    by (simp_all add: call)
  have "length (active_links ?s' pk' role') \<le> 1" for pk' role'
    using current_call_keeps_bound [OF c ok Cons.prems(1)] .
  from Cons.IH [OF this rest] show ?case by (simp add: call)
qed

text \<open>
  Claim C3, amended. Let every call of a sequence of reconcile calls be passed the
  current chain of its parcel for the address role of the call: the chain's
  ParcelMailingAddress link is the only active link of the pair, or the chain has no
  link and the pair has no active link. Starting from a store with at most one active
  ParcelMailingAddress link for every (parcel, role), the sequence leaves at most one
  active link for every (parcel, role), whatever is scraped and whether or not a call
  raises. Within every reconcile call the log of writes splits in two: the first part
  creates no link and holds the retirement of the chain's link when the mailing
  changed, the second part retires no link.
\<close>

theorem at_most_one_active_parcel_link:
  assumes "\<forall>pk role. length (active_links s pk role) \<le> 1"
    and "current_chains s calls"
  shows "(\<forall>pk role. length (active_links (reconcile_all s calls) pk role) \<le> 1)
     \<and> (\<forall>s0 cd ct roles s1 res.
          sync_owner_and_mailing s0 cd ct roles = (s1, res) \<longrightarrow>
          (\<exists>before after. writes s1 = writes s0 @ before @ after
              \<and> (\<forall>w \<in> set before. \<not> is_parcel_link w)
              \<and> (\<forall>w \<in> set after. \<not> is_parcel_retire w)
              \<and> (mailing cd \<noteq> mailing (cog_tables_to_owner_and_mailing ct) \<longrightarrow>
                   (\<forall>l. Option.bind ct cog_parcel_address = Some l \<longrightarrow>
                      DeactivateParcelToAddress (pma_linkid l) \<in> set before))))"
proof (intro conjI allI impI)
  fix pk role
  show "length (active_links (reconcile_all s calls) pk role) \<le> 1"
    using reconcile_all_keeps_bound [OF _ assms(2)] assms(1) by blast
next
  fix s0 cd ct roles s1 res
  assume "sync_owner_and_mailing s0 cd ct roles = (s1, res)"
  then show "\<exists>before after. writes s1 = writes s0 @ before @ after
              \<and> (\<forall>w \<in> set before. \<not> is_parcel_link w)
              \<and> (\<forall>w \<in> set after. \<not> is_parcel_retire w)
              \<and> (mailing cd \<noteq> mailing (cog_tables_to_owner_and_mailing ct) \<longrightarrow>
                   (\<forall>l. Option.bind ct cog_parcel_address = Some l \<longrightarrow>
                      DeactivateParcelToAddress (pma_linkid l) \<in> set before))"
    by (rule sync_owner_and_mailing_order)
qed

text \<open>
  Claim C3 as stated fails for a call that is passed a chain that is not the current
  one: \<open>_sync_owner_and_mailing\<close> retires the link of the chain it is given and never
  looks at the store. The store holds the example parcel and no link. Two reconcile
  calls under the roles (1, 11) are both passed the chain read before the first: the
  first creates the link of the pair (7, 1); the second, with another mailing, has no
  link in its chain to retire and creates a second active link for the pair.
\<close>

theorem stale_chain_counterexample:
  "parcel_mailing_addresses example_db = []
   \<and> map (\<lambda>l. (pma_linkid l, parcel_parcelkey l, linkedobjectrole_lorid l, pma_deactivatedts l))
       (parcel_mailing_addresses (reconcile_all example_db stale_reconciles))
     = [(1, 7, 1, None), (2, 7, 1, None)]
   \<and> length (active_links (reconcile_all example_db stale_reconciles) 7 1) = 2"
  by code_simp

theorem at_most_one_active_parcel_link_witness:
  "current_chains example_db_jane example_reconciles
   \<and> map (\<lambda>l. (pma_linkid l, parcel_parcelkey l, linkedobjectrole_lorid l, pma_deactivatedts l))
       (parcel_mailing_addresses (reconcile_all example_db_jane example_reconciles))
     = [(1, 7, 1, Some 1000), (2, 7, 1, None), (3, 7, 2, None)]
   \<and> length (active_links (reconcile_all example_db_jane example_reconciles) 7 1) \<le> 1
   \<and> length (active_links (reconcile_all example_db_jane example_reconciles) 7 2) \<le> 1
   \<and> take 7 (writes (fst (sync_owner_and_mailing example_db_jane
        \<lparr>owner = Some jane, mailing = Some example_mailing_moved\<rparr>
        (Some example_chain_jane) (general_roles example_roles))))
     = [DeactivateParcelToAddress 1, DeactivateHumanToAddress 1, DeactivateAddress 1,
        EnsureCityStateZip ''Springfield'' ''IL'' ''62701'', EnsureStreet 1 ''Main St'' False,
        EnsureAddress 1 ''125'' None None, LinkParcelToAddress 7 2 1]"
proof -
  have l: "parcel_mailing_addresses example_db_jane = [example_link]" by code_simp
  have inv: "\<forall>pk role. length (active_links example_db_jane pk role) \<le> 1"
    by (simp add: active_links_def l)
  have cur: "current_chains example_db_jane example_reconciles" by code_simp
  have a: "length (active_links (reconcile_all example_db_jane example_reconciles) 7 1) \<le> 1"
    and a': "length (active_links (reconcile_all example_db_jane example_reconciles) 7 2) \<le> 1"
    using at_most_one_active_parcel_link [OF inv cur] by blast+
  have b: "map (\<lambda>l. (pma_linkid l, parcel_parcelkey l, linkedobjectrole_lorid l, pma_deactivatedts l))
       (parcel_mailing_addresses (reconcile_all example_db_jane example_reconciles))
     = [(1, 7, 1, Some 1000), (2, 7, 1, None), (3, 7, 2, None)]"
    by code_simp
  have c: "take 7 (writes (fst (sync_owner_and_mailing example_db_jane
        \<lparr>owner = Some jane, mailing = Some example_mailing_moved\<rparr>
        (Some example_chain_jane) (general_roles example_roles))))
     = [DeactivateParcelToAddress 1, DeactivateHumanToAddress 1, DeactivateAddress 1,
        EnsureCityStateZip ''Springfield'' ''IL'' ''62701'', EnsureStreet 1 ''Main St'' False,
        EnsureAddress 1 ''125'' None None, LinkParcelToAddress 7 2 1]"
    by code_simp
  from cur b a a' c show ?thesis by (intro conjI)
qed

section \<open>Reconciling twice\<close>

lemma find_append_new:
  "find P xs = None \<Longrightarrow> P x \<Longrightarrow> find P (xs @ [x]) = Some x"
  by (induction xs) (auto split: if_splits)

lemma ensure_human_again:
  assumes e: "ensure_human s nm multi = (s', h)" and hs: "humans s'' = humans s'"
  shows "ensure_human s'' nm multi = (s''\<lparr>writes := writes s'' @ [EnsureHuman nm multi]\<rparr>, h)"
proof (cases "find (\<lambda>r. human_name r = nm \<and> multihuman r = multi \<and> human_deactivatedts r = None)
                (humans s)")
  case None
  with e have h: "h = \<lparr>humanid = next_id (map humanid (humans s)),
                    human_name = nm, multihuman = multi, human_deactivatedts = None\<rparr>"
    and s': "humans s' = humans s @ [h]"
    by (auto simp: ensure_human_def Let_def)
  have "find (\<lambda>r. human_name r = nm \<and> multihuman r = multi \<and> human_deactivatedts r = None)
          (humans s @ [h]) = Some h"
    using None by (rule find_append_new) (simp add: h)
  then show ?thesis by (simp add: ensure_human_def Let_def hs s')
next
  case (Some r)
  with e have "h = r" "humans s' = humans s"
    by (auto simp: ensure_human_def Let_def)
  with Some show ?thesis by (simp add: ensure_human_def Let_def hs)
qed

lemma parcel_only_projection:
  "cog_tables_to_owner_and_mailing (Some (empty_tables\<lparr>cog_parcel := Some p\<rparr>)) =
     \<lparr>owner = None, mailing = None\<rparr>"
  by (simp add: cog_tables_to_owner_and_mailing_def empty_tables_def has_address_tables_def)

lemma parcel_only_read:
  assumes "select_parcel s pid = Inr p"
    and "select_parcel_mailing_addresses s (parcelkey p) = []"
  shows "get_cog_tables k s pid =
     Inr \<lparr>cog_general = empty_tables\<lparr>cog_parcel := Some p\<rparr>,
          cog_mortgage = empty_tables\<lparr>cog_parcel := Some p\<rparr>\<rparr>"
  using assms by (simp add: get_cog_tables_def bind_err_def)

lemma parcel_only_call:
  assumes ow: "owner scraped = Some ow" and ml: "mailing scraped = None"
    and e: "ensure_human s (name ow) (is_multi_entity ow) = (sa, h)"
  shows "sync_owner_and_mailing s scraped (Some (empty_tables\<lparr>cog_parcel := Some p\<rparr>)) (ar, er) =
     (link_human_to_address (link_human_to_parcel sa (parcelkey p) (humanid h) er)
        (Some (humanid h)) None er,
      Inr scraped)"
proof -
  let ?t = "empty_tables\<lparr>cog_parcel := Some p\<rparr>"
  have f: "cog_address ?t = None" "cog_human ?t = None" "cog_parcel ?t = Some p"
      "cog_human_parcel ?t = None" "cog_human_address ?t = None"
    by (simp_all add: empty_tables_def)
  have a: "sync_address s scraped (Some ?t) ar = (s, Inr (None, None))"
    using ml by (simp add: sync_address_def parcel_only_projection Let_def f)
  have r: "retire_human_side s (Some ?t) = s"
    by (simp add: retire_human_side_def f)
  have hn: "human_name h = name ow" "multihuman h = is_multi_entity ow"
    using e by (auto simp: ensure_human_def Let_def split: option.splits dest: find_SomeD)
  have h: "sync_human s scraped (Some ?t) er =
      (link_human_to_parcel sa (parcelkey p) (humanid h) er,
       Inr (Some (humanid h), Some ow))"
    using ow e hn by (simp add: sync_human_def parcel_only_projection Let_def r f)
  have sc: "scraped = \<lparr>owner = Some ow, mailing = None\<rparr>"
    using ow ml by (cases scraped) simp
  show ?thesis
    using a h ow ml
    by (simp add: sync_owner_and_mailing_def parcel_only_projection Let_def sc)
qed

text \<open>
  Claim C1, evaluated on the code. Take a parcel without an active ParcelMailingAddress
  link, a scraped value with an owner and no mailing, any role constants and any role
  pair. \<open>get_cog_tables\<close> reads two chains that hold the parcel alone. The first call
  returns the scraped value, having ensured the human and created the HumanParcel link
  and the HumanMailingAddress link with a null address. The chains read from the store
  it leaves hold the parcel alone again, because the reader reaches a human only through
  the address of a parcel link. The second call, passed that chain and the same scraped
  value, returns the same value but writes again: it ensures the human and creates both
  links a second time.
\<close>

theorem second_sync_repeats_writes:
  assumes "select_parcel s pid = Inr p"
    and "select_parcel_mailing_addresses s (parcelkey p) = []"
    and "owner scraped = Some ow"
    and "mailing scraped = None"
  shows "\<exists>s1 s2 h.
       get_cog_tables k s pid =
         Inr \<lparr>cog_general = empty_tables\<lparr>cog_parcel := Some p\<rparr>,
              cog_mortgage = empty_tables\<lparr>cog_parcel := Some p\<rparr>\<rparr>
     \<and> sync_owner_and_mailing s scraped (Some (empty_tables\<lparr>cog_parcel := Some p\<rparr>)) (ar, er)
         = (s1, Inr scraped)
     \<and> get_cog_tables k s1 pid =
         Inr \<lparr>cog_general = empty_tables\<lparr>cog_parcel := Some p\<rparr>,
              cog_mortgage = empty_tables\<lparr>cog_parcel := Some p\<rparr>\<rparr>
     \<and> sync_owner_and_mailing s1 scraped (Some (empty_tables\<lparr>cog_parcel := Some p\<rparr>)) (ar, er)
         = (s2, Inr scraped)
     \<and> writes s2 = writes s1 @
         [EnsureHuman (name ow) (is_multi_entity ow),
          LinkHumanToParcel (parcelkey p) h er,
          LinkHumanToAddress (Some h) None er]
     \<and> length (human_parcels s2) = Suc (length (human_parcels s1))
     \<and> length (human_mailing_addresses s2) = Suc (length (human_mailing_addresses s1))"
proof -
  let ?t = "empty_tables\<lparr>cog_parcel := Some p\<rparr>"
  obtain sa h where e: "ensure_human s (name ow) (is_multi_entity ow) = (sa, h)"
    by (cases "ensure_human s (name ow) (is_multi_entity ow)")
  define s1 where "s1 = link_human_to_address (link_human_to_parcel sa (parcelkey p) (humanid h) er)
        (Some (humanid h)) None er"
  have c1: "sync_owner_and_mailing s scraped (Some ?t) (ar, er) = (s1, Inr scraped)"
    unfolding s1_def using assms(3,4) e by (rule parcel_only_call)
  have fr: "parcels s1 = parcels s" "parcel_mailing_addresses s1 = parcel_mailing_addresses s"
      "humans s1 = humans sa"
    using ensure_human_frame [OF e] by (simp_all add: s1_def link_defs)
  have p1: "select_parcel s1 pid = Inr p"
    using assms(1) fr by (simp add: select_parcel_def)
  have l1: "select_parcel_mailing_addresses s1 (parcelkey p) = []"
    using assms(2) fr by (simp add: select_parcel_mailing_addresses_def)
  define sb where "sb = s1\<lparr>writes := writes s1 @ [EnsureHuman (name ow) (is_multi_entity ow)]\<rparr>"
  have e1: "ensure_human s1 (name ow) (is_multi_entity ow) = (sb, h)"
    unfolding sb_def using e fr(3) by (rule ensure_human_again)
  define s2 where "s2 = link_human_to_address (link_human_to_parcel sb (parcelkey p) (humanid h) er)
        (Some (humanid h)) None er"
  have c2: "sync_owner_and_mailing s1 scraped (Some ?t) (ar, er) = (s2, Inr scraped)"
    unfolding s2_def using assms(3,4) e1 by (rule parcel_only_call)
  have w: "writes s2 = writes s1 @
         [EnsureHuman (name ow) (is_multi_entity ow),
          LinkHumanToParcel (parcelkey p) (humanid h) er,
          LinkHumanToAddress (Some (humanid h)) None er]"
    by (simp add: s2_def sb_def link_defs)
  have n: "length (human_parcels s2) = Suc (length (human_parcels s1))"
      "length (human_mailing_addresses s2) = Suc (length (human_mailing_addresses s1))"
    by (simp_all add: s2_def sb_def link_defs)
  from parcel_only_read [OF assms(1,2)] c1 parcel_only_read [OF p1 l1] c2 w n
  show ?thesis by blast
qed

theorem second_sync_repeats_writes_witness:
  "get_cog_tables example_roles example_db ''0123'' =
     Inr \<lparr>cog_general = example_chain_parcel_only, cog_mortgage = example_chain_parcel_only\<rparr>
   \<and> sync_owner_and_mailing example_db jane_no_mailing (Some example_chain_parcel_only)
        (general_roles example_roles) = (example_db_jane_only, Inr jane_no_mailing)
   \<and> get_cog_tables example_roles example_db_jane_only ''0123'' =
     Inr \<lparr>cog_general = example_chain_parcel_only, cog_mortgage = example_chain_parcel_only\<rparr>
   \<and> writes (fst (sync_owner_and_mailing example_db_jane_only jane_no_mailing
        (Some example_chain_parcel_only) (general_roles example_roles))) =
       writes example_db_jane_only @
       [EnsureHuman ''Jane Smith'' False, LinkHumanToParcel 7 1 11,
        LinkHumanToAddress (Some 1) None 11]
   \<and> length (human_parcels (fst (sync_owner_and_mailing example_db_jane_only jane_no_mailing
        (Some example_chain_parcel_only) (general_roles example_roles)))) = 2"
proof -
  have p: "select_parcel example_db ''0123'' = Inr example_parcel" by code_simp
  have l: "select_parcel_mailing_addresses example_db (parcelkey example_parcel) = []"
    by code_simp
  have o: "owner jane_no_mailing = Some jane" by (simp add: jane_no_mailing_def)
  have m: "mailing jane_no_mailing = None" by (simp add: jane_no_mailing_def)
  have r: "general_roles example_roles = (1, 11)" by (simp add: example_roles_def)
  have c1: "sync_owner_and_mailing example_db jane_no_mailing (Some example_chain_parcel_only)
        (1, 11) = (example_db_jane_only, Inr jane_no_mailing)"
    by code_simp
  have hp: "length (human_parcels example_db_jane_only) = 1" by code_simp
  have nm: "name jane = ''Jane Smith''" "is_multi_entity jane = False" "parcelkey example_parcel = 7"
    by (simp_all add: jane_def example_parcel_def)
  have h1: "LinkHumanToParcel 7 1 11 \<in> set (writes example_db_jane_only)" by code_simp
  from second_sync_repeats_writes [OF p l o m, of example_roles 1 11]
  obtain s1 s2 h where
    g0: "get_cog_tables example_roles example_db ''0123'' =
         Inr \<lparr>cog_general = example_chain_parcel_only, cog_mortgage = example_chain_parcel_only\<rparr>"
    and a1: "sync_owner_and_mailing example_db jane_no_mailing (Some example_chain_parcel_only) (1, 11)
         = (s1, Inr jane_no_mailing)"
    and g1: "get_cog_tables example_roles s1 ''0123'' =
         Inr \<lparr>cog_general = example_chain_parcel_only, cog_mortgage = example_chain_parcel_only\<rparr>"
    and a2: "sync_owner_and_mailing s1 jane_no_mailing (Some example_chain_parcel_only) (1, 11)
         = (s2, Inr jane_no_mailing)"
    and w: "writes s2 = writes s1 @
         [EnsureHuman ''Jane Smith'' False, LinkHumanToParcel 7 h 11,
          LinkHumanToAddress (Some h) None 11]"
    and n: "length (human_parcels s2) = Suc (length (human_parcels s1))"
    unfolding example_chain_parcel_only_def nm by blast
  from a1 c1 have s1: "s1 = example_db_jane_only" by simp
  have "writes (fst (sync_owner_and_mailing example_db_jane_only jane_no_mailing
        (Some example_chain_parcel_only) (1, 11))) =
       writes example_db_jane_only @
       [EnsureHuman ''Jane Smith'' False, LinkHumanToParcel 7 1 11,
        LinkHumanToAddress (Some 1) None 11]"
    by code_simp
  moreover have "length (human_parcels (fst (sync_owner_and_mailing example_db_jane_only
        jane_no_mailing (Some example_chain_parcel_only) (1, 11)))) = 2"
    using a2 n hp unfolding s1 by simp
  ultimately show ?thesis using g0 c1 g1 unfolding s1 r by (intro conjI)
qed

end
